theory Spec2Isabelle
  imports Complex_Main "HOL-Library.Word" "HOL-Library.Monad_Syntax"
begin

section \<open>Sample memory\<close>

text \<open>
  The player hands raw \<^verbatim>\<open>float*\<close> channel pointers around. Memory is modelled flat,
  one cell per sample: an address is a natural number, a channel pointer is the address of
  the channel's first sample, and \<^verbatim>\<open>p[k]\<close> is the cell \<open>p + k\<close>. The sample type is a
  parameter \<open>'f\<close> with a zero (the all-zero bit pattern that \<^verbatim>\<open>zeromem\<close> and
  \<^verbatim>\<open>FloatVectorOperations::clear\<close> write); the routing code only copies and zeroes samples.
  Byte counts of the source (\<^verbatim>\<open>numSamples * sizeof (float)\<close>) are counted in samples here.

  A result of type \<open>option\<close> is \<open>None\<close> where the C++ has undefined behaviour:
  an index outside a \<^verbatim>\<open>Span\<close> or \<^verbatim>\<open>std::vector\<close>, a \<^verbatim>\<open>memcpy\<close> between
  overlapping ranges, a null pointer dereferenced. \<^verbatim>\<open>jassert\<close> compiles to nothing in
  release builds and is not a branch of the model.
\<close>

type_synonym addr = nat

type_synonym 'f memory = "addr \<Rightarrow> 'f"

definition in_range :: "addr \<Rightarrow> nat \<Rightarrow> addr \<Rightarrow> bool" where
  "in_range p n a \<longleftrightarrow> p \<le> a \<and> a < p + n"

definition disjoint_ranges :: "nat \<Rightarrow> addr \<Rightarrow> addr \<Rightarrow> bool" where
  "disjoint_ranges n p q \<longleftrightarrow> n = 0 \<or> p + n \<le> q \<or> q + n \<le> p"

definition zeromem :: "addr \<Rightarrow> nat \<Rightarrow> 'f::zero memory \<Rightarrow> 'f memory" where
  "zeromem p n m = (\<lambda>a. if in_range p n a then 0 else m a)"

definition memcpy :: "addr \<Rightarrow> addr \<Rightarrow> nat \<Rightarrow> 'f memory \<Rightarrow> 'f memory option" where
  "memcpy dst src n m =
     (if disjoint_ranges n dst src
      then Some (\<lambda>a. if in_range dst n a then m (src + (a - dst)) else m a)
      else None)"

definition nth_opt :: "'a list \<Rightarrow> nat \<Rightarrow> 'a option" where
  "nth_opt xs i = (if i < length xs then Some (xs ! i) else None)"

text \<open>
  \<^verbatim>\<open>AudioBuffer<float>\<close> as far as this file uses it: the channel pointers
  (\<^verbatim>\<open>getNumChannels\<close> is their number) and \<^verbatim>\<open>getNumSamples\<close>.
\<close>

record AudioBuffer =
  chanPtrs :: "addr list"
  bufSamples :: nat

definition getWritePointer :: "AudioBuffer \<Rightarrow> nat \<Rightarrow> addr option" where
  "getWritePointer b i = nth_opt (chanPtrs b) i"

section \<open>initialiseIoBuffers\<close>

text \<open>
  The mutable state of one call: the \<^verbatim>\<open>channels\<close> vector (passed by reference), the
  sample memory, and the local counter \<^verbatim>\<open>totalNumChans\<close>.
\<close>

record 'f io =
  chans :: "addr list"
  mem :: "'f memory"
  totalNumChans :: nat

text \<open>\<^verbatim>\<open>for (size_t i = lo; i < hi; ++i) body\<close>, stopping at the first undefined step.\<close>

function forLoop :: "nat \<Rightarrow> nat \<Rightarrow> (nat \<Rightarrow> 's \<Rightarrow> 's option) \<Rightarrow> 's \<Rightarrow> 's option" where
  "forLoop i hi body s =
     (if i < hi
      then (case body i s of None \<Rightarrow> None | Some s' \<Rightarrow> forLoop (Suc i) hi body s')
      else Some s)"
  by pat_completeness auto
termination
  by (relation "measure (\<lambda>(i, hi, body, s). hi - i)") auto

declare forLoop.simps [simp del]

text \<open>\<^verbatim>\<open>channels[totalNumChans] = p\<close>\<close>

definition setChannel :: "addr \<Rightarrow> 'f io \<Rightarrow> 'f io option" where
  "setChannel p st =
     (if totalNumChans st < length (chans st)
      then Some (st\<lparr>chans := (chans st)[totalNumChans st := p]\<rparr>)
      else None)"

text \<open>The lambda \<^verbatim>\<open>prepareInputChannel\<close>: zero the current slot when there is no system
  input, otherwise copy system input \<open>index mod ins.size()\<close> into it.\<close>

definition prepareInputChannel :: "addr list \<Rightarrow> nat \<Rightarrow> nat \<Rightarrow> 'f::zero io \<Rightarrow> 'f io option" where
  "prepareInputChannel ins numBytes index st =
     do {
       dst \<leftarrow> nth_opt (chans st) (totalNumChans st);
       if ins = []
       then Some (st\<lparr>mem := zeromem dst numBytes (mem st)\<rparr>)
       else do {
         m \<leftarrow> memcpy dst (ins ! (index mod length ins)) numBytes (mem st);
         Some (st\<lparr>mem := m\<rparr>)
       }
     }"

text \<open>Body of the three loops that seed an input slot: the slot is pointed at \<open>p\<close>
  (a system output, or a channel of the temporary buffer), filled by
  \<open>prepareInputChannel\<close>, and the counter advances.\<close>

definition inputSlot :: "addr list \<Rightarrow> nat \<Rightarrow> nat \<Rightarrow> addr option \<Rightarrow> 'f::zero io \<Rightarrow> 'f io option" where
  "inputSlot ins numBytes i p st =
     do {
       q \<leftarrow> p;
       st1 \<leftarrow> setChannel q st;
       st2 \<leftarrow> prepareInputChannel ins numBytes i st1;
       Some (st2\<lparr>totalNumChans := Suc (totalNumChans st2)\<rparr>)
     }"

text \<open>Body of the last loop: an output with no matching processor input is zeroed.\<close>

definition zeroSlot :: "nat \<Rightarrow> addr option \<Rightarrow> 'f::zero io \<Rightarrow> 'f io option" where
  "zeroSlot numSamples p st =
     do {
       q \<leftarrow> p;
       st1 \<leftarrow> setChannel q st;
       dst \<leftarrow> nth_opt (chans st1) (totalNumChans st1);
       Some (st1\<lparr>mem := zeromem dst numSamples (mem st1),
                 totalNumChans := Suc (totalNumChans st1)\<rparr>)
     }"

text \<open>A channel of the temporary buffer; writing \<open>numSamples\<close> samples to a buffer that
  holds fewer runs past its end.\<close>

definition tempChannel :: "AudioBuffer \<Rightarrow> nat \<Rightarrow> nat \<Rightarrow> addr option" where
  "tempChannel tempBuffer numSamples i =
     (if bufSamples tempBuffer < numSamples then None else getWritePointer tempBuffer i)"

definition initialiseIoBuffers ::
  "addr list \<Rightarrow> addr list \<Rightarrow> nat \<Rightarrow> nat \<Rightarrow> nat \<Rightarrow> AudioBuffer \<Rightarrow> addr list \<Rightarrow> 'f::zero memory
     \<Rightarrow> (addr list \<times> 'f memory) option" where
  "initialiseIoBuffers ins outs numSamples processorIns processorOuts tempBuffer channels m =
     (let numBytes = numSamples;
          st0 = \<lparr>chans = channels, mem = m, totalNumChans = 0\<rparr>
      in do {
        st \<leftarrow>
          (if processorIns > processorOuts
           then do {
             st1 \<leftarrow> forLoop 0 processorOuts
                      (\<lambda>i. inputSlot ins numBytes i (nth_opt outs i)) st0;
             forLoop processorOuts processorIns
               (\<lambda>i. inputSlot ins numBytes i (tempChannel tempBuffer numSamples (i - processorOuts))) st1
           }
           else do {
             st1 \<leftarrow> forLoop 0 processorIns
                      (\<lambda>i. inputSlot ins numBytes i (nth_opt outs i)) st0;
             forLoop processorIns processorOuts
               (\<lambda>i. zeroSlot numSamples (nth_opt outs i)) st1
           });
        Some (chans st, mem st)
      })"


section \<open>The player, its processor and its device\<close>

text \<open>
  An \<^verbatim>\<open>AudioProcessor*\<close> that is not null is a handle; \<open>None\<close> is \<^verbatim>\<open>nullptr\<close>.
\<close>

type_synonym handle = nat

datatype ProcessingPrecision = singlePrecision | doublePrecision

text \<open>\<^verbatim>\<open>NumChannels\<close> is declared in the player's header: two \<^verbatim>\<open>int\<close>s, both 0 by default.\<close>

record NumChannels =
  ins :: int
  outs :: int

type_synonym AudioWorkgroup = "nat option"

type_synonym MidiBuffer = "nat list"

text \<open>
  A play head is either the local \<^verbatim>\<open>PlayHead\<close> object of one callback (it stores the host
  time, the sample count and the sample rate it was built from) or one that somebody else
  installed.
\<close>

datatype PlayHead =
  EnginePlayHead "64 word option" "64 word" real
| OtherPlayHead nat

text \<open>
  Modelled from the spec: the \<^verbatim>\<open>AudioProcessor\<close> class is not among the sources; the
  player reaches it only through the processor contract of the spec (section 6). The answers
  to its queries are fields; \<open>checkBusesLayoutSupported\<close> is asked about
  \<^verbatim>\<open>chans.toLayout()\<close> and \<open>getBusesLayout\<close> is read through \<^verbatim>\<open>NumChannels { ... }\<close>,
  so both speak of channel counts. \<open>processingPrecision\<close> is what \<open>setPrecision\<close> stores
  and \<open>isUsingDoublePrecision\<close> reports, \<open>getPlayHead\<close> is the current position source.
  The two \<^verbatim>\<open>processBlock\<close> overloads are arbitrary functions of the buffer contents and
  the MIDI queue. What a hook does inside the processor is not modelled: a call is
  recorded in the trace, and the answers to the queries change only through
  \<open>setProcessingPrecision\<close> and \<open>setPlayHead\<close>.
\<close>

record ('f, 'd) AudioProcessor =
  isMidiEffect :: bool
  checkBusesLayoutSupported :: "NumChannels \<Rightarrow> bool"
  getBusesLayout :: NumChannels
  supportsDoublePrecisionProcessing :: bool
  isSuspended :: bool
  processingPrecision :: ProcessingPrecision
  getPlayHead :: "PlayHead option"
  processBlock :: "'f list list \<Rightarrow> MidiBuffer \<Rightarrow> 'f list list \<times> MidiBuffer"
  processBlockDouble :: "'d list list \<Rightarrow> MidiBuffer \<Rightarrow> 'd list list \<times> MidiBuffer"

definition isUsingDoublePrecision :: "('f, 'd) AudioProcessor \<Rightarrow> bool" where
  "isUsingDoublePrecision proc \<longleftrightarrow> processingPrecision proc = doublePrecision"

text \<open>Modelled from the spec: the device contract (section 6). The active channels are bit
  masks, counted by \<^verbatim>\<open>countNumberOfSetBits\<close>.\<close>

record AudioIODevice =
  getCurrentSampleRate :: real
  getCurrentBufferSizeSamples :: int
  getActiveInputChannels :: "bool list"
  getActiveOutputChannels :: "bool list"
  getWorkgroup :: AudioWorkgroup

definition countNumberOfSetBits :: "bool list \<Rightarrow> int" where
  "countNumberOfSetBits bits = int (length (filter (\<lambda>b. b) bits))"

text \<open>Modelled from the spec: the MIDI output sink contract (section 6).\<close>

record MidiOutput =
  isBackgroundThreadRunning :: bool

text \<open>
  Every call the player makes into a processor or into the MIDI output that can change
  them is an event. The trace keeps the events in order, each with the value the player's
  \<^verbatim>\<open>processor\<close> member had when the call was made.
\<close>

datatype event =
  SetRateAndBufferSizeDetails handle real int
| SetPlayConfigDetails handle int int real int
| SetProcessingPrecision handle ProcessingPrecision
| PrepareToPlay handle real int
| ReleaseResources handle
| AudioWorkgroupContextChanged handle AudioWorkgroup
| SetPlayHead handle "PlayHead option"
| ProcessBlock handle ProcessingPrecision
| SendBlockOfMessages MidiBuffer real
| SendBlockOfMessagesNow MidiBuffer

text \<open>
  The members of \<^verbatim>\<open>AudioProcessorPlayer\<close>, followed by what the player acts on: the
  processor objects, the sample memory with its allocation mark, and the trace.
  \<open>messageCollector\<close> is the queue of pending MIDI messages.
\<close>

record ('f, 'd) AudioProcessorPlayer =
  processor :: "handle option"
  sampleRate :: real
  blockSize :: int
  isPrepared :: bool
  isDoublePrecision :: bool
  deviceChannels :: NumChannels
  defaultProcessorChannels :: NumChannels
  actualProcessorChannels :: NumChannels
  channels :: "addr list"
  tempBuffer :: AudioBuffer
  conversionBuffer :: "'d list list"
  incomingMidi :: MidiBuffer
  messageCollector :: MidiBuffer
  midiOutput :: "MidiOutput option"
  sampleCount :: "64 word"
  currentDevice :: "AudioIODevice option"
  currentWorkgroup :: AudioWorkgroup
  procs :: "handle \<Rightarrow> ('f, 'd) AudioProcessor"
  memory :: "'f memory"
  heapTop :: addr
  trace :: "(event \<times> handle option) list"

definition call :: "event \<Rightarrow> ('f, 'd) AudioProcessorPlayer \<Rightarrow> ('f, 'd) AudioProcessorPlayer" where
  "call e s = s\<lparr>trace := trace s @ [(e, processor s)]\<rparr>"

definition setProcessingPrecision ::
  "handle \<Rightarrow> ProcessingPrecision \<Rightarrow> ('f, 'd) AudioProcessorPlayer \<Rightarrow> ('f, 'd) AudioProcessorPlayer" where
  "setProcessingPrecision p precision s =
     call (SetProcessingPrecision p precision)
       (s\<lparr>procs := (procs s)(p := (procs s p)\<lparr>processingPrecision := precision\<rparr>)\<rparr>)"

definition setPlayHead :: "handle \<Rightarrow> PlayHead option \<Rightarrow> ('f, 'd) AudioProcessorPlayer \<Rightarrow> ('f, 'd) AudioProcessorPlayer" where
  "setPlayHead p newPlayHead s =
     call (SetPlayHead p newPlayHead)
       (s\<lparr>procs := (procs s)(p := (procs s p)\<lparr>getPlayHead := newPlayHead\<rparr>)\<rparr>)"

text \<open>The cast \<^verbatim>\<open>(size_t) x\<close> of an \<^verbatim>\<open>int\<close>, on a 64-bit target.\<close>

definition size_t :: "int \<Rightarrow> nat" where
  "size_t x = nat (x mod 2 ^ 64)"

section \<open>Layout negotiation and buffer sizes\<close>

definition findMostSuitableLayout :: "('f, 'd) AudioProcessorPlayer \<Rightarrow> ('f, 'd) AudioProcessor \<Rightarrow> NumChannels" where
  "findMostSuitableLayout s proc =
     (if isMidiEffect proc then \<lparr>ins = 0, outs = 0\<rparr>
      else
        let layouts =
              [deviceChannels s] @
              (if ins (deviceChannels s) = 0 \<or> ins (deviceChannels s) = 1
               then [\<lparr>ins = ins (defaultProcessorChannels s), outs = outs (deviceChannels s)\<rparr>,
                     \<lparr>ins = outs (deviceChannels s), outs = outs (deviceChannels s)\<rparr>]
               else [])
        in case find (checkBusesLayoutSupported proc) layouts of
             Some layout \<Rightarrow> layout
           | None \<Rightarrow> layouts ! 0)"

text \<open>
  Modelled from the spec: \<^verbatim>\<open>AudioBuffer::setSize\<close> is not among the sources. The scratch
  buffer is resized only here, outside the callback: a buffer whose size changes gets fresh
  storage, one run of \<open>newNumSamples\<close> cells per channel, above everything allocated before.
  A negative size, which the class asserts against, counts as 0.
\<close>

definition setSize :: "int \<Rightarrow> int \<Rightarrow> ('f, 'd) AudioProcessorPlayer \<Rightarrow> ('f, 'd) AudioProcessorPlayer" where
  "setSize newNumChannels newNumSamples s =
     (let nc = nat newNumChannels; ns = nat newNumSamples
      in if nc = length (chanPtrs (tempBuffer s)) \<and> ns = bufSamples (tempBuffer s) then s
         else s\<lparr>tempBuffer := \<lparr>chanPtrs = map (\<lambda>c. heapTop s + c * ns) [0..<nc], bufSamples = ns\<rparr>,
                heapTop := heapTop s + nc * ns\<rparr>)"

text \<open>\<^verbatim>\<open>std::vector::resize\<close>: new slots are null pointers.\<close>

definition resize :: "nat \<Rightarrow> addr list \<Rightarrow> addr list" where
  "resize n xs = take n xs @ replicate (n - length xs) 0"

definition resizeChannels :: "('f, 'd) AudioProcessorPlayer \<Rightarrow> ('f, 'd) AudioProcessorPlayer" where
  "resizeChannels s =
     (let maxChannels = max (max (max (ins (deviceChannels s)) (outs (deviceChannels s)))
                                 (ins (actualProcessorChannels s)))
                            (outs (actualProcessorChannels s))
      in setSize maxChannels (blockSize s)
           (s\<lparr>channels := resize (size_t maxChannels) (channels s)\<rparr>))"

section \<open>Attaching a processor, precision, device start and stop\<close>

text \<open>The block of \<open>setProcessor\<close> that runs when the new processor is not null and the
  sample rate and block size are positive.\<close>

definition prepareNewProcessor :: "handle \<Rightarrow> ('f, 'd) AudioProcessorPlayer \<Rightarrow> ('f, 'd) AudioProcessorPlayer" where
  "prepareNewProcessor p s =
     (let s1 = s\<lparr>defaultProcessorChannels := getBusesLayout (procs s p)\<rparr>;
          s2 = s1\<lparr>actualProcessorChannels := findMostSuitableLayout s1 (procs s1 p)\<rparr>;
          s3 = (if isMidiEffect (procs s2 p)
                then call (SetRateAndBufferSizeDetails p (sampleRate s2) (blockSize s2)) s2
                else call (SetPlayConfigDetails p (ins (actualProcessorChannels s2))
                             (outs (actualProcessorChannels s2)) (sampleRate s2) (blockSize s2)) s2);
          supportsDouble = (supportsDoublePrecisionProcessing (procs s3 p) \<and> isDoublePrecision s3);
          s4 = setProcessingPrecision p
                 (if supportsDouble then doublePrecision else singlePrecision) s3
      in call (PrepareToPlay p (sampleRate s4) (blockSize s4)) s4)"

definition setProcessor :: "handle option \<Rightarrow> ('f, 'd) AudioProcessorPlayer \<Rightarrow> ('f, 'd) AudioProcessorPlayer" where
  "setProcessor processorToPlay s =
     (if processor s = processorToPlay then s
      else
        let s1 = s\<lparr>sampleCount := 0, currentWorkgroup := None\<rparr>;
            s2 = (case processorToPlay of
                    None \<Rightarrow> s1
                  | Some p \<Rightarrow>
                      if sampleRate s1 > 0 \<and> blockSize s1 > 0 then prepareNewProcessor p s1 else s1);
            oldOne = (if isPrepared s2 then processor s2 else None);
            s3 = resizeChannels (s2\<lparr>processor := processorToPlay, isPrepared := True\<rparr>)
        in case oldOne of
             None \<Rightarrow> s3
           | Some old \<Rightarrow> call (ReleaseResources old) s3)"

definition setDoublePrecisionProcessing :: "bool \<Rightarrow> ('f, 'd) AudioProcessorPlayer \<Rightarrow> ('f, 'd) AudioProcessorPlayer" where
  "setDoublePrecisionProcessing enable s =
     (if enable \<noteq> isDoublePrecision s
      then
        let s1 = s\<lparr>currentWorkgroup := None\<rparr>;
            s2 = (case processor s1 of
                    None \<Rightarrow> s1
                  | Some p \<Rightarrow>
                      let r = call (ReleaseResources p) s1;
                          supportsDouble = (supportsDoublePrecisionProcessing (procs r p) \<and> enable);
                          q = setProcessingPrecision p
                                (if supportsDouble then doublePrecision else singlePrecision) r
                      in call (PrepareToPlay p (sampleRate q) (blockSize q)) q)
        in s2\<lparr>isDoublePrecision := enable\<rparr>
      else s)"

definition setMidiOutput :: "MidiOutput option \<Rightarrow> ('f, 'd) AudioProcessorPlayer \<Rightarrow> ('f, 'd) AudioProcessorPlayer" where
  "setMidiOutput midiOutputToUse s =
     (if midiOutput s \<noteq> midiOutputToUse then s\<lparr>midiOutput := midiOutputToUse\<rparr> else s)"

definition audioDeviceAboutToStart :: "AudioIODevice \<Rightarrow> ('f, 'd) AudioProcessorPlayer \<Rightarrow> ('f, 'd) AudioProcessorPlayer" where
  "audioDeviceAboutToStart device s =
     (let newSampleRate = getCurrentSampleRate device;
          newBlockSize = getCurrentBufferSizeSamples device;
          numChansIn = countNumberOfSetBits (getActiveInputChannels device);
          numChansOut = countNumberOfSetBits (getActiveOutputChannels device);
          s1 = s\<lparr>currentDevice := Some device\<rparr>;
          s2 = s1\<lparr>sampleRate := newSampleRate, blockSize := newBlockSize,
                  deviceChannels := \<lparr>ins = numChansIn, outs = numChansOut\<rparr>\<rparr>;
          s3 = resizeChannels s2;
          s4 = s3\<lparr>messageCollector := [], currentWorkgroup := None\<rparr>
      in case processor s4 of
           None \<Rightarrow> s4
         | Some p \<Rightarrow>
             let s5 = (if isPrepared s4 then call (ReleaseResources p) s4 else s4);
                 oldProcessor = processor s5
             in setProcessor oldProcessor (setProcessor None s5))"

definition audioDeviceStopped :: "('f, 'd) AudioProcessorPlayer \<Rightarrow> ('f, 'd) AudioProcessorPlayer" where
  "audioDeviceStopped s =
     (let s1 = (case processor s of
                  None \<Rightarrow> s
                | Some p \<Rightarrow> if isPrepared s then call (ReleaseResources p) s else s);
          s2 = setSize 1 1 (s1\<lparr>sampleRate := 0, blockSize := 0, isPrepared := False\<rparr>)
      in s2\<lparr>currentDevice := None, currentWorkgroup := None\<rparr>)"

definition handleIncomingMidiMessage :: "nat \<Rightarrow> ('f, 'd) AudioProcessorPlayer \<Rightarrow> ('f, 'd) AudioProcessorPlayer" where
  "handleIncomingMidiMessage message s = s\<lparr>messageCollector := messageCollector s @ [message]\<rparr>"


section \<open>The audio callback\<close>

text \<open>
  What \<^verbatim>\<open>AudioBuffer::makeCopyOf\<close> does to one sample when it converts between the
  \<^verbatim>\<open>float\<close> buffer and the \<^verbatim>\<open>double\<close> conversion buffer is a parameter.
\<close>

record ('f, 'd) SampleConversion =
  toDouble :: "'f \<Rightarrow> 'd"
  toFloat :: "'d \<Rightarrow> 'f"

text \<open>The contents of the channels an \<^verbatim>\<open>AudioBuffer\<close> refers to, and writing them back.\<close>

definition readBuffer :: "addr list \<Rightarrow> nat \<Rightarrow> 'f memory \<Rightarrow> 'f list list" where
  "readBuffer ptrs n m = map (\<lambda>p. map (\<lambda>k. m (p + k)) [0..<n]) ptrs"

definition writeChannel :: "addr \<Rightarrow> 'f list \<Rightarrow> 'f memory \<Rightarrow> 'f memory" where
  "writeChannel p xs m = (\<lambda>a. if in_range p (length xs) a then xs ! (a - p) else m a)"

definition writeBuffer :: "addr list \<Rightarrow> 'f list list \<Rightarrow> 'f memory \<Rightarrow> 'f memory" where
  "writeBuffer ptrs contents m = fold (\<lambda>(p, xs). writeChannel p xs) (zip ptrs contents) m"

text \<open>\<^verbatim>\<open>std::exchange (currentWorkgroup, ...) != ...\<close> and the notification that follows.\<close>

definition updateWorkgroup :: "handle \<Rightarrow> AudioIODevice \<Rightarrow> ('f, 'd) AudioProcessorPlayer \<Rightarrow> ('f, 'd) AudioProcessorPlayer" where
  "updateWorkgroup p device s =
     (let previous = currentWorkgroup s;
          s1 = s\<lparr>currentWorkgroup := getWorkgroup device\<rparr>
      in if previous \<noteq> getWorkgroup device
         then call (AudioWorkgroupContextChanged p (currentWorkgroup s1)) s1
         else s1)"

text \<open>The two branches on \<^verbatim>\<open>isUsingDoublePrecision\<close>.\<close>

definition invokeProcessBlock ::
  "('f, 'd) SampleConversion \<Rightarrow> handle \<Rightarrow> addr list \<Rightarrow> nat \<Rightarrow> ('f, 'd) AudioProcessorPlayer \<Rightarrow> ('f, 'd) AudioProcessorPlayer" where
  "invokeProcessBlock cv p buffer numSamples s =
     (if isUsingDoublePrecision (procs s p)
      then
        let s1 = s\<lparr>conversionBuffer :=
                     map (map (toDouble cv)) (readBuffer buffer numSamples (memory s))\<rparr>;
            result = processBlockDouble (procs s1 p) (conversionBuffer s1) (incomingMidi s1);
            s2 = call (ProcessBlock p doublePrecision)
                   (s1\<lparr>conversionBuffer := fst result, incomingMidi := snd result\<rparr>)
        in s2\<lparr>memory := writeBuffer buffer (map (map (toFloat cv)) (conversionBuffer s2)) (memory s2)\<rparr>
      else
        let result = processBlock (procs s p) (readBuffer buffer numSamples (memory s)) (incomingMidi s)
        in call (ProcessBlock p singlePrecision)
             (s\<lparr>memory := writeBuffer buffer (fst result) (memory s), incomingMidi := snd result\<rparr>))"

definition sendMidiOutput :: "('f, 'd) AudioProcessorPlayer \<Rightarrow> ('f, 'd) AudioProcessorPlayer" where
  "sendMidiOutput s =
     (case midiOutput s of
        None \<Rightarrow> s
      | Some out \<Rightarrow>
          if isBackgroundThreadRunning out
          then call (SendBlockOfMessages (incomingMidi s) (sampleRate s)) s
          else call (SendBlockOfMessagesNow (incomingMidi s)) s)"

text \<open>The final loop: every system output is cleared.\<close>

definition clearOutputs :: "addr list \<Rightarrow> nat \<Rightarrow> ('f::zero, 'd) AudioProcessorPlayer \<Rightarrow> ('f, 'd) AudioProcessorPlayer" where
  "clearOutputs outputChannelData numSamples s =
     s\<lparr>memory := fold (\<lambda>p. zeromem p numSamples) outputChannelData (memory s)\<rparr>"

text \<open>
  The callback. \<open>inputChannelData\<close> and \<open>outputChannelData\<close> are the pointer arrays with
  their lengths, \<open>numSamples\<close> is the block length (an \<^verbatim>\<open>int\<close> that is not negative),
  \<open>hostTimeNs\<close> is the optional host time of the context. The local
  \<^verbatim>\<open>PlayHead\<close> installs itself in its constructor when the processor has no play head, and
  its destructor runs when the block of the processor is left: at the \<^verbatim>\<open>return\<close> after
  processing, or before the final loop when the processor is suspended.
\<close>

definition audioDeviceIOCallbackWithContext ::
  "('f, 'd) SampleConversion \<Rightarrow> addr list \<Rightarrow> addr list \<Rightarrow> nat \<Rightarrow> 64 word option
     \<Rightarrow> ('f::zero, 'd) AudioProcessorPlayer \<Rightarrow> ('f, 'd) AudioProcessorPlayer option" where
  "audioDeviceIOCallbackWithContext cv inputChannelData outputChannelData numSamples hostTimeNs s =
     do {
       let s1 = s\<lparr>incomingMidi := messageCollector s, messageCollector := []\<rparr>;
       routed \<leftarrow> initialiseIoBuffers inputChannelData outputChannelData numSamples
                   (size_t (ins (actualProcessorChannels s1)))
                   (size_t (outs (actualProcessorChannels s1)))
                   (tempBuffer s1) (channels s1) (memory s1);
       let s2 = s1\<lparr>channels := fst routed, memory := snd routed\<rparr>;
       let totalNumChannels = max (ins (actualProcessorChannels s2)) (outs (actualProcessorChannels s2));
       let buffer = take (nat totalNumChannels) (channels s2);
       case processor s2 of
         None \<Rightarrow> Some (clearOutputs outputChannelData numSamples s2)
       | Some p \<Rightarrow> do {
           device \<leftarrow> currentDevice s2;
           let s3 = updateWorkgroup p device s2;
           let useThisPlayhead = (getPlayHead (procs s3 p) = None);
           let s4 = (if useThisPlayhead
                     then setPlayHead p (Some (EnginePlayHead hostTimeNs (sampleCount s3) (sampleRate s3))) s3
                     else s3);
           let s5 = s4\<lparr>sampleCount := sampleCount s4 + of_nat numSamples\<rparr>;
           if \<not> isSuspended (procs s5 p)
           then do {
             let s6 = invokeProcessBlock cv p buffer numSamples s5;
             let s7 = sendMidiOutput s6;
             Some (if useThisPlayhead then setPlayHead p None s7 else s7)
           }
           else do {
             let s6 = (if useThisPlayhead then setPlayHead p None s5 else s5);
             Some (clearOutputs outputChannelData numSamples s6)
           }
         }
     }"


section \<open>Vocabulary of the properties\<close>

text \<open>What \<open>prepareInputChannel\<close> leaves in sample \<open>k\<close> of the slot seeded for index \<open>i\<close>,
  read from the memory \<open>m\<close> before the call.\<close>

definition seed :: "addr list \<Rightarrow> nat \<Rightarrow> 'f::zero memory \<Rightarrow> nat \<Rightarrow> 'f" where
  "seed sysIns i m k = (if sysIns = [] then 0 else m (sysIns ! (i mod length sysIns) + k))"

text \<open>The buffers the slots end up pointing at: the first \<open>processorOuts\<close> system outputs,
  then as many channels of the temporary buffer as the inputs exceed the outputs.\<close>

definition destinations :: "nat \<Rightarrow> nat \<Rightarrow> addr list \<Rightarrow> AudioBuffer \<Rightarrow> addr list" where
  "destinations processorIns processorOuts sysOuts tb =
     take processorOuts sysOuts @ take (processorIns - processorOuts) (chanPtrs tb)"

text \<open>Buffers of \<open>n\<close> samples that do not overlap: each of \<open>ps\<close> against each of \<open>qs\<close>,
  and the members of one list among themselves.\<close>

definition separate :: "nat \<Rightarrow> addr list \<Rightarrow> addr list \<Rightarrow> bool" where
  "separate n ps qs \<longleftrightarrow> list_all (\<lambda>p. list_all (disjoint_ranges n p) qs) ps"

fun pairwise_separate :: "nat \<Rightarrow> addr list \<Rightarrow> bool" where
  "pairwise_separate n [] \<longleftrightarrow> True"
| "pairwise_separate n (p # ps) \<longleftrightarrow> list_all (disjoint_ranges n p) ps \<and> pairwise_separate n ps"

text \<open>
  The preconditions of \<open>initialiseIoBuffers\<close>: the three \<^verbatim>\<open>jassert\<close>s of the source, enough
  system outputs, and channel buffers that are what the callers pass: distinct blocks of
  \<open>numSamples\<close> samples, the inputs apart from what is written.
\<close>

definition routable :: "addr list \<Rightarrow> addr list \<Rightarrow> nat \<Rightarrow> nat \<Rightarrow> nat \<Rightarrow> AudioBuffer \<Rightarrow> addr list \<Rightarrow> bool" where
  "routable sysIns sysOuts numSamples processorIns processorOuts tb chs \<longleftrightarrow>
     max processorIns processorOuts \<le> length chs \<and>
     processorOuts \<le> length sysOuts \<and>
     processorIns - processorOuts \<le> length (chanPtrs tb) \<and>
     (if processorOuts < processorIns then numSamples \<le> bufSamples tb else True) \<and>
     pairwise_separate numSamples (destinations processorIns processorOuts sysOuts tb) \<and>
     separate numSamples (destinations processorIns processorOuts sysOuts tb) sysIns"

text \<open>The routing claim, in its words: what sample \<open>k\<close> of slot \<open>i\<close> must hold.\<close>

definition expected :: "addr list \<Rightarrow> nat \<Rightarrow> 'f::zero memory \<Rightarrow> nat \<Rightarrow> nat \<Rightarrow> 'f" where
  "expected sysIns processorIns m i k =
     (if processorIns \<le> i then 0
      else if length sysIns = 0 then 0
      else if length sysIns = 1 then m (sysIns ! 0 + k)
      else m (sysIns ! (i mod length sysIns) + k))"

text \<open>
  Layout negotiation in the words of the specification: the device's own counts first;
  then, only for a device with zero or one input, the processor's declared input count
  with the device's outputs, then the device's output count on both sides; the first
  candidate the processor accepts, and the device's counts when it accepts none.
\<close>

definition negotiated :: "NumChannels \<Rightarrow> int \<Rightarrow> (NumChannels \<Rightarrow> bool) \<Rightarrow> NumChannels" where
  "negotiated device declaredIns accepts =
     (if accepts device then device
      else if ins device = 0 \<or> ins device = 1
      then (if accepts \<lparr>ins = declaredIns, outs = outs device\<rparr>
            then \<lparr>ins = declaredIns, outs = outs device\<rparr>
            else if accepts \<lparr>ins = outs device, outs = outs device\<rparr>
            then \<lparr>ins = outs device, outs = outs device\<rparr>
            else device)
      else device)"

text \<open>
  The calls an attach makes into processor \<open>p\<close> when the device configuration is known,
  in order: configure, set the precision, prepare.
\<close>

definition attachEvents ::
  "handle \<Rightarrow> ('f, 'd) AudioProcessor \<Rightarrow> NumChannels \<Rightarrow> real \<Rightarrow> int \<Rightarrow> bool \<Rightarrow> event list" where
  "attachEvents p proc device rate block requested =
     [if isMidiEffect proc then SetRateAndBufferSizeDetails p rate block
      else SetPlayConfigDetails p
             (ins (negotiated device (ins (getBusesLayout proc)) (checkBusesLayoutSupported proc)))
             (outs (negotiated device (ins (getBusesLayout proc)) (checkBusesLayoutSupported proc)))
             rate block,
      SetProcessingPrecision p
        (if supportsDoublePrecisionProcessing proc \<and> requested then doublePrecision else singlePrecision),
      PrepareToPlay p rate block]"

text \<open>Events made while the player's \<^verbatim>\<open>processor\<close> member was \<open>h\<close>; the events an
  operation added to the trace; counting the releases and the prepares of one processor.\<close>

definition tagged :: "handle option \<Rightarrow> event list \<Rightarrow> (event \<times> handle option) list" where
  "tagged h es = map (\<lambda>e. (e, h)) es"

definition emitted :: "('f, 'd) AudioProcessorPlayer \<Rightarrow> ('f, 'd) AudioProcessorPlayer \<Rightarrow> (event \<times> handle option) list" where
  "emitted s s' = drop (length (trace s)) (trace s')"

definition releaseCount :: "handle \<Rightarrow> (event \<times> handle option) list \<Rightarrow> nat" where
  "releaseCount p tr = length (filter (\<lambda>x. fst x = ReleaseResources p) tr)"

fun isPrepareOf :: "handle \<Rightarrow> event \<Rightarrow> bool" where
  "isPrepareOf p (PrepareToPlay q rate block) \<longleftrightarrow> q = p"
| "isPrepareOf p e \<longleftrightarrow> False"

definition prepareCount :: "handle \<Rightarrow> (event \<times> handle option) list \<Rightarrow> nat" where
  "prepareCount p tr = length (filter (\<lambda>x. isPrepareOf p (fst x)) tr)"

fun isSetPlayHead :: "event \<Rightarrow> bool" where
  "isSetPlayHead (SetPlayHead p h) \<longleftrightarrow> True"
| "isSetPlayHead e \<longleftrightarrow> False"

fun isSend :: "event \<Rightarrow> bool" where
  "isSend (SendBlockOfMessages midi rate) \<longleftrightarrow> True"
| "isSend (SendBlockOfMessagesNow midi) \<longleftrightarrow> True"
| "isSend e \<longleftrightarrow> False"

text \<open>The calls of one callback, by step: the notification of a changed workgroup, the
  play head installed and removed again, the MIDI sent.\<close>

definition workgroupEvents :: "handle \<Rightarrow> AudioIODevice \<Rightarrow> ('f, 'd) AudioProcessorPlayer \<Rightarrow> event list" where
  "workgroupEvents p device s =
     (if currentWorkgroup s \<noteq> getWorkgroup device
      then [AudioWorkgroupContextChanged p (getWorkgroup device)] else [])"

definition installEvents :: "handle \<Rightarrow> 64 word option \<Rightarrow> ('f, 'd) AudioProcessorPlayer \<Rightarrow> event list" where
  "installEvents p hostTimeNs s =
     (if getPlayHead (procs s p) = None
      then [SetPlayHead p (Some (EnginePlayHead hostTimeNs (sampleCount s) (sampleRate s)))]
      else [])"

definition uninstallEvents :: "handle \<Rightarrow> ('f, 'd) AudioProcessorPlayer \<Rightarrow> event list" where
  "uninstallEvents p s = (if getPlayHead (procs s p) = None then [SetPlayHead p None] else [])"

definition sendEvents :: "('f, 'd) AudioProcessorPlayer \<Rightarrow> event list" where
  "sendEvents s =
     (case midiOutput s of
        None \<Rightarrow> []
      | Some out \<Rightarrow>
          [if isBackgroundThreadRunning out
           then SendBlockOfMessages (incomingMidi s) (sampleRate s)
           else SendBlockOfMessagesNow (incomingMidi s)])"

section \<open>Example states\<close>

text \<open>A memory whose cell \<open>a\<close> holds \<open>a + 1\<close>; a processor that accepts two channels in
  and two out and nothing else; a player with no processor and no device; a device with one
  active input and two active outputs, and the same device reporting a block size of 0.\<close>

definition ramp :: "int memory" where
  "ramp a = int a + 1"

definition stereo_processor :: "(int, int) AudioProcessor" where
  "stereo_processor =
     \<lparr>isMidiEffect = False,
      checkBusesLayoutSupported = (\<lambda>l. ins l = 2 \<and> outs l = 2),
      getBusesLayout = \<lparr>ins = 2, outs = 2\<rparr>,
      supportsDoublePrecisionProcessing = True,
      isSuspended = False,
      processingPrecision = singlePrecision,
      getPlayHead = None,
      processBlock = (\<lambda>b midi. (b, midi)),
      processBlockDouble = (\<lambda>b midi. (b, midi))\<rparr>"

definition idle_player :: "(int, int) AudioProcessorPlayer" where
  "idle_player =
     \<lparr>processor = None, sampleRate = 0, blockSize = 0, isPrepared = False,
      isDoublePrecision = False,
      deviceChannels = \<lparr>ins = 0, outs = 0\<rparr>,
      defaultProcessorChannels = \<lparr>ins = 0, outs = 0\<rparr>,
      actualProcessorChannels = \<lparr>ins = 0, outs = 0\<rparr>,
      channels = [], tempBuffer = \<lparr>chanPtrs = [], bufSamples = 0\<rparr>,
      conversionBuffer = [], incomingMidi = [], messageCollector = [],
      midiOutput = None, sampleCount = 0, currentDevice = None, currentWorkgroup = None,
      procs = (\<lambda>h. stereo_processor), memory = ramp, heapTop = 100, trace = []\<rparr>"

definition stereo_device :: AudioIODevice where
  "stereo_device =
     \<lparr>getCurrentSampleRate = 44100, getCurrentBufferSizeSamples = 2,
      getActiveInputChannels = [True], getActiveOutputChannels = [True, True],
      getWorkgroup = Some 1\<rparr>"

definition unopened_device :: AudioIODevice where
  "unopened_device =
     \<lparr>getCurrentSampleRate = 44100, getCurrentBufferSizeSamples = 0,
      getActiveInputChannels = [True], getActiveOutputChannels = [True, True],
      getWorkgroup = Some 1\<rparr>"

text \<open>Processor 0 hosted and prepared on the stereo device; the same with the processor
  suspended; the same with a play head that somebody else installed.\<close>

definition attached_player :: "(int, int) AudioProcessorPlayer" where
  "attached_player =
     idle_player
       \<lparr>processor := Some 0, sampleRate := 44100, blockSize := 2, isPrepared := True,
        deviceChannels := \<lparr>ins = 1, outs = 2\<rparr>,
        defaultProcessorChannels := \<lparr>ins = 2, outs = 2\<rparr>,
        actualProcessorChannels := \<lparr>ins = 2, outs = 2\<rparr>,
        channels := [0, 0], tempBuffer := \<lparr>chanPtrs = [100, 102], bufSamples = 2\<rparr>,
        currentDevice := Some stereo_device, heapTop := 104\<rparr>"

definition suspended_player :: "(int, int) AudioProcessorPlayer" where
  "suspended_player = attached_player\<lparr>procs := (\<lambda>h. stereo_processor\<lparr>isSuspended := True\<rparr>)\<rparr>"

definition timed_player :: "(int, int) AudioProcessorPlayer" where
  "timed_player =
     attached_player\<lparr>procs := (\<lambda>h. stereo_processor\<lparr>getPlayHead := Some (OtherPlayHead 7)\<rparr>)\<rparr>"

text \<open>The player after its processor was detached: the channel counts of the last
  negotiation are still in place. A device with one active input and one active output,
  and the player after this sequence: start on the stereo device, attach processor 0,
  detach it, restart on the device with one output.\<close>

definition detached_player :: "(int, int) AudioProcessorPlayer" where
  "detached_player = attached_player\<lparr>processor := None\<rparr>"

definition mono_device :: AudioIODevice where
  "mono_device =
     \<lparr>getCurrentSampleRate = 44100, getCurrentBufferSizeSamples = 2,
      getActiveInputChannels = [True], getActiveOutputChannels = [True],
      getWorkgroup = Some 1\<rparr>"

definition restarted_player :: "(int, int) AudioProcessorPlayer" where
  "restarted_player =
     audioDeviceAboutToStart mono_device
       (setProcessor None
          (setProcessor (Some 0)
             (audioDeviceAboutToStart stereo_device idle_player)))"

definition identity_conversion :: "(int, int) SampleConversion" where
  "identity_conversion = \<lparr>toDouble = (\<lambda>x. x), toFloat = (\<lambda>x. x)\<rparr>"

section \<open>Properties of the loops\<close>

lemma forLoop_Suc:
  "lo \<le> hi \<Longrightarrow> forLoop lo (Suc hi) body s = Option.bind (forLoop lo hi body s) (body hi)"
proof (induction lo hi body s rule: forLoop.induct)
  case (1 i hi body s)
  show ?case
  proof (cases "i < hi")
    case True
    show ?thesis
    proof (cases "body i s")
      case None
      with True show ?thesis
        by (simp add: forLoop.simps [of i "Suc hi"] forLoop.simps [of i hi])
    next
      case (Some s')
      from True have "Suc i \<le> hi" by simp
      with "1.IH" [OF True Some] Some True show ?thesis
        by (simp add: forLoop.simps [of i "Suc hi"] forLoop.simps [of i hi])
    qed
  next
    case False
    with "1.prems" have "i = hi" by simp
    then show ?thesis
      by (simp add: forLoop.simps [of hi "Suc hi"] forLoop.simps [of hi hi]
          forLoop.simps [of "Suc hi" "Suc hi"] split: option.splits)
  qed
qed

lemma forLoop_empty: "hi \<le> lo \<Longrightarrow> forLoop lo hi body s = Some s"
  by (simp add: forLoop.simps)

lemma inputSlot_Some:
  assumes "totalNumChans st < length (chans st)"
    and "sysIns \<noteq> [] \<longrightarrow> disjoint_ranges n q (sysIns ! (i mod length sysIns))"
  shows "\<exists>st'. inputSlot sysIns n i (Some q) st = Some st' \<and>
           chans st' = (chans st)[totalNumChans st := q] \<and>
           mem st' = (\<lambda>a. if in_range q n a then seed sysIns i (mem st) (a - q) else mem st a) \<and>
           totalNumChans st' = Suc (totalNumChans st)"
  using assms
  by (auto simp: inputSlot_def setChannel_def prepareInputChannel_def nth_opt_def memcpy_def
      zeromem_def seed_def)

lemma zeroSlot_Some:
  assumes "totalNumChans st < length (chans st)"
  shows "\<exists>st'. zeroSlot n (Some q) st = Some st' \<and>
           chans st' = (chans st)[totalNumChans st := q] \<and>
           mem st' = (\<lambda>a. if in_range q n a then 0 else mem st a) \<and>
           totalNumChans st' = Suc (totalNumChans st)"
  using assms
  by (auto simp: zeroSlot_def setChannel_def nth_opt_def zeromem_def)


lemma in_range_self: "k < n \<Longrightarrow> in_range p n (p + k)"
  by (simp add: in_range_def)

lemma disjoint_not_in_range:
  "disjoint_ranges n p q \<Longrightarrow> k < n \<Longrightarrow> \<not> in_range q n (p + k)"
  by (auto simp: disjoint_ranges_def in_range_def)

lemma disjoint_ranges_sym: "disjoint_ranges n p q \<Longrightarrow> disjoint_ranges n q p"
  by (auto simp: disjoint_ranges_def)

lemma slot_loop:
  fixes body :: "nat \<Rightarrow> 'f::zero io \<Rightarrow> 'f io option"
  assumes step: "\<And>i st. lo \<le> i \<Longrightarrow> i < hi \<Longrightarrow> totalNumChans st < length (chans st) \<Longrightarrow>
      \<exists>st'. body i st = Some st' \<and>
           chans st' = (chans st)[totalNumChans st := d i] \<and>
           mem st' = (\<lambda>a. if in_range (d i) n a then v i (mem st) (a - d i) else mem st a) \<and>
           totalNumChans st' = Suc (totalNumChans st)"
    and reads: "\<And>i m m' k. lo \<le> i \<Longrightarrow> i < hi \<Longrightarrow> k < n \<Longrightarrow>
      (\<And>a. (\<forall>j. lo \<le> j \<and> j < hi \<longrightarrow> \<not> in_range (d j) n a) \<Longrightarrow> m a = m' a) \<Longrightarrow>
      v i m k = v i m' k"
    and sep: "\<And>i j. lo \<le> i \<Longrightarrow> i < j \<Longrightarrow> j < hi \<Longrightarrow> disjoint_ranges n (d i) (d j)"
    and room: "totalNumChans st + (hi - lo) \<le> length (chans st)"
    and le: "lo \<le> h" "h \<le> hi"
  shows "\<exists>st'. forLoop lo h body st = Some st' \<and>
           totalNumChans st' = totalNumChans st + (h - lo) \<and>
           length (chans st') = length (chans st) \<and>
           (\<forall>i. lo \<le> i \<and> i < h \<longrightarrow> chans st' ! (totalNumChans st + (i - lo)) = d i) \<and>
           (\<forall>j. j < totalNumChans st \<longrightarrow> chans st' ! j = chans st ! j) \<and>
           (\<forall>i k. lo \<le> i \<and> i < h \<and> k < n \<longrightarrow> mem st' (d i + k) = v i (mem st) k) \<and>
           (\<forall>a. (\<forall>i. lo \<le> i \<and> i < h \<longrightarrow> \<not> in_range (d i) n a) \<longrightarrow> mem st' a = mem st a)"
  using le
proof (induction h rule: dec_induct)
  case base
  then show ?case by (auto simp: forLoop_empty)
next
  case (step h)
  then obtain sh where sh: "forLoop lo h body st = Some sh"
    and t: "totalNumChans sh = totalNumChans st + (h - lo)"
    and len: "length (chans sh) = length (chans st)"
    and ch: "\<And>i. lo \<le> i \<Longrightarrow> i < h \<Longrightarrow> chans sh ! (totalNumChans st + (i - lo)) = d i"
    and old: "\<And>j. j < totalNumChans st \<Longrightarrow> chans sh ! j = chans st ! j"
    and val: "\<And>i k. lo \<le> i \<Longrightarrow> i < h \<Longrightarrow> k < n \<Longrightarrow> mem sh (d i + k) = v i (mem st) k"
    and frame: "\<And>a. (\<forall>i. lo \<le> i \<and> i < h \<longrightarrow> \<not> in_range (d i) n a) \<Longrightarrow> mem sh a = mem st a"
    by auto
  from step.hyps step.prems have hlt: "h < hi" by simp
  with room t len \<open>lo \<le> h\<close> have free: "totalNumChans sh < length (chans sh)" by simp
  from assms(1) [OF \<open>lo \<le> h\<close> hlt free] obtain s' where s': "body h sh = Some s'"
    and ch': "chans s' = (chans sh)[totalNumChans sh := d h]"
    and mem': "mem s' = (\<lambda>a. if in_range (d h) n a then v h (mem sh) (a - d h) else mem sh a)"
    and t': "totalNumChans s' = Suc (totalNumChans sh)"
    by blast
  have run: "forLoop lo (Suc h) body st = Some s'"
    using \<open>lo \<le> h\<close> sh s' by (simp add: forLoop_Suc)
  have c1: "totalNumChans s' = totalNumChans st + (Suc h - lo)"
    using t t' \<open>lo \<le> h\<close> by simp
  have c2: "length (chans s') = length (chans st)"
    using ch' len by simp
  have c3: "chans s' ! (totalNumChans st + (i - lo)) = d i" if "lo \<le> i" "i < Suc h" for i
  proof (cases "i = h")
    case True
    with ch' t free show ?thesis by simp
  next
    case False
    with that have "i < h" by simp
    with that(1) t ch' ch [OF that(1) \<open>i < h\<close>] show ?thesis by simp
  qed
  have c4: "chans s' ! j = chans st ! j" if "j < totalNumChans st" for j
    using that ch' t old [OF that] by simp
  have same: "v h (mem sh) k = v h (mem st) k" if "k < n" for k
  proof (rule reads [OF \<open>lo \<le> h\<close> hlt that])
    fix a assume "\<forall>j. lo \<le> j \<and> j < hi \<longrightarrow> \<not> in_range (d j) n a"
    with hlt have "\<forall>i. lo \<le> i \<and> i < h \<longrightarrow> \<not> in_range (d i) n a" by auto
    then show "mem sh a = mem st a" by (rule frame)
  qed
  have c5: "mem s' (d i + k) = v i (mem st) k" if "lo \<le> i" "i < Suc h" "k < n" for i k
  proof (cases "i = h")
    case True
    with mem' that(3) same [OF that(3)] show ?thesis
      by (simp add: in_range_self)
  next
    case False
    with that have "i < h" by simp
    from sep [OF that(1) \<open>i < h\<close> hlt] that(3) have "\<not> in_range (d h) n (d i + k)"
      by (rule disjoint_not_in_range)
    with mem' val [OF that(1) \<open>i < h\<close> that(3)] show ?thesis by simp
  qed
  have c6: "mem s' a = mem st a" if "\<forall>i. lo \<le> i \<and> i < Suc h \<longrightarrow> \<not> in_range (d i) n a" for a
  proof -
    from that \<open>lo \<le> h\<close> have "\<not> in_range (d h) n a" by simp
    moreover from that have "\<forall>i. lo \<le> i \<and> i < h \<longrightarrow> \<not> in_range (d i) n a" by simp
    ultimately show ?thesis using mem' frame by simp
  qed
  from run c1 c2 c3 c4 c5 c6 show ?case by blast
qed


lemma two_slot_loops:
  fixes body1 body2 :: "nat \<Rightarrow> 'f::zero io \<Rightarrow> 'f io option"
  assumes step1: "\<And>i st. i < a \<Longrightarrow> totalNumChans st < length (chans st) \<Longrightarrow>
      \<exists>st'. body1 i st = Some st' \<and>
           chans st' = (chans st)[totalNumChans st := d i] \<and>
           mem st' = (\<lambda>x. if in_range (d i) n x then v1 i (mem st) (x - d i) else mem st x) \<and>
           totalNumChans st' = Suc (totalNumChans st)"
    and step2: "\<And>i st. a \<le> i \<Longrightarrow> i < b \<Longrightarrow> totalNumChans st < length (chans st) \<Longrightarrow>
      \<exists>st'. body2 i st = Some st' \<and>
           chans st' = (chans st)[totalNumChans st := d i] \<and>
           mem st' = (\<lambda>x. if in_range (d i) n x then v2 i (mem st) (x - d i) else mem st x) \<and>
           totalNumChans st' = Suc (totalNumChans st)"
    and reads1: "\<And>i m m' k. i < a \<Longrightarrow> k < n \<Longrightarrow>
      (\<And>x. (\<forall>j. j < b \<longrightarrow> \<not> in_range (d j) n x) \<Longrightarrow> m x = m' x) \<Longrightarrow> v1 i m k = v1 i m' k"
    and reads2: "\<And>i m m' k. a \<le> i \<Longrightarrow> i < b \<Longrightarrow> k < n \<Longrightarrow>
      (\<And>x. (\<forall>j. j < b \<longrightarrow> \<not> in_range (d j) n x) \<Longrightarrow> m x = m' x) \<Longrightarrow> v2 i m k = v2 i m' k"
    and sep: "\<And>i j. i < j \<Longrightarrow> j < b \<Longrightarrow> disjoint_ranges n (d i) (d j)"
    and ab: "a \<le> b"
    and room: "b \<le> length (chans st)"
    and zero: "totalNumChans st = 0"
  shows "\<exists>st'. Option.bind (forLoop 0 a body1 st) (forLoop a b body2) = Some st' \<and>
           length (chans st') = length (chans st) \<and>
           (\<forall>i<b. chans st' ! i = d i) \<and>
           (\<forall>i k. i < a \<and> k < n \<longrightarrow> mem st' (d i + k) = v1 i (mem st) k) \<and>
           (\<forall>i k. a \<le> i \<and> i < b \<and> k < n \<longrightarrow> mem st' (d i + k) = v2 i (mem st) k)"
proof -
  have "\<exists>st'. forLoop 0 a body1 st = Some st' \<and>
           totalNumChans st' = totalNumChans st + (a - 0) \<and>
           length (chans st') = length (chans st) \<and>
           (\<forall>i. 0 \<le> i \<and> i < a \<longrightarrow> chans st' ! (totalNumChans st + (i - 0)) = d i) \<and>
           (\<forall>j. j < totalNumChans st \<longrightarrow> chans st' ! j = chans st ! j) \<and>
           (\<forall>i k. 0 \<le> i \<and> i < a \<and> k < n \<longrightarrow> mem st' (d i + k) = v1 i (mem st) k) \<and>
           (\<forall>x. (\<forall>i. 0 \<le> i \<and> i < a \<longrightarrow> \<not> in_range (d i) n x) \<longrightarrow> mem st' x = mem st x)"
  proof (rule slot_loop [where hi = a and v = v1])
    show "\<exists>st'. body1 i s = Some st' \<and>
           chans st' = (chans s)[totalNumChans s := d i] \<and>
           mem st' = (\<lambda>x. if in_range (d i) n x then v1 i (mem s) (x - d i) else mem s x) \<and>
           totalNumChans st' = Suc (totalNumChans s)"
      if "i < a" "totalNumChans s < length (chans s)" for i s
      using that by (rule step1)
    show "v1 i m k = v1 i m' k"
      if "i < a" "k < n" "\<And>x. (\<forall>j. 0 \<le> j \<and> j < a \<longrightarrow> \<not> in_range (d j) n x) \<Longrightarrow> m x = m' x"
      for i m m' k
    proof (rule reads1 [OF that(1,2)])
      fix x assume "\<forall>j. j < b \<longrightarrow> \<not> in_range (d j) n x"
      with ab have "\<forall>j. 0 \<le> j \<and> j < a \<longrightarrow> \<not> in_range (d j) n x" by auto
      then show "m x = m' x" by (rule that(3))
    qed
    show "disjoint_ranges n (d i) (d j)" if "i < j" "j < a" for i j
      using that ab by (intro sep) auto
    show "totalNumChans st + (a - 0) \<le> length (chans st)"
      using zero ab room by simp
  qed simp_all
  then obtain s1 where run1: "forLoop 0 a body1 st = Some s1"
    and t1: "totalNumChans s1 = a"
    and len1: "length (chans s1) = length (chans st)"
    and ch1: "\<And>i. i < a \<Longrightarrow> chans s1 ! i = d i"
    and val1: "\<And>i k. i < a \<Longrightarrow> k < n \<Longrightarrow> mem s1 (d i + k) = v1 i (mem st) k"
    and frame1: "\<And>x. (\<forall>i. i < a \<longrightarrow> \<not> in_range (d i) n x) \<Longrightarrow> mem s1 x = mem st x"
    using zero by auto
  have "\<exists>st'. forLoop a b body2 s1 = Some st' \<and>
           totalNumChans st' = totalNumChans s1 + (b - a) \<and>
           length (chans st') = length (chans s1) \<and>
           (\<forall>i. a \<le> i \<and> i < b \<longrightarrow> chans st' ! (totalNumChans s1 + (i - a)) = d i) \<and>
           (\<forall>j. j < totalNumChans s1 \<longrightarrow> chans st' ! j = chans s1 ! j) \<and>
           (\<forall>i k. a \<le> i \<and> i < b \<and> k < n \<longrightarrow> mem st' (d i + k) = v2 i (mem s1) k) \<and>
           (\<forall>x. (\<forall>i. a \<le> i \<and> i < b \<longrightarrow> \<not> in_range (d i) n x) \<longrightarrow> mem st' x = mem s1 x)"
  proof (rule slot_loop [where hi = b and v = v2])
    show "\<exists>st'. body2 i s = Some st' \<and>
           chans st' = (chans s)[totalNumChans s := d i] \<and>
           mem st' = (\<lambda>x. if in_range (d i) n x then v2 i (mem s) (x - d i) else mem s x) \<and>
           totalNumChans st' = Suc (totalNumChans s)"
      if "a \<le> i" "i < b" "totalNumChans s < length (chans s)" for i s
      using that by (rule step2)
    show "v2 i m k = v2 i m' k"
      if "a \<le> i" "i < b" "k < n"
        "\<And>x. (\<forall>j. a \<le> j \<and> j < b \<longrightarrow> \<not> in_range (d j) n x) \<Longrightarrow> m x = m' x"
      for i m m' k
    proof (rule reads2 [OF that(1,2,3)])
      fix x assume "\<forall>j. j < b \<longrightarrow> \<not> in_range (d j) n x"
      then have "\<forall>j. a \<le> j \<and> j < b \<longrightarrow> \<not> in_range (d j) n x" by auto
      then show "m x = m' x" by (rule that(4))
    qed
    show "disjoint_ranges n (d i) (d j)" if "i < j" "j < b" for i j
      using that by (rule sep)
    show "totalNumChans s1 + (b - a) \<le> length (chans s1)"
      using t1 len1 ab room by simp
    show "a \<le> b" by (rule ab)
  qed simp_all
  then obtain s2 where run2: "forLoop a b body2 s1 = Some s2"
    and len2: "length (chans s2) = length (chans s1)"
    and ch2: "\<And>i. a \<le> i \<Longrightarrow> i < b \<Longrightarrow> chans s2 ! (a + (i - a)) = d i"
    and keep2: "\<And>j. j < a \<Longrightarrow> chans s2 ! j = chans s1 ! j"
    and val2: "\<And>i k. a \<le> i \<Longrightarrow> i < b \<Longrightarrow> k < n \<Longrightarrow> mem s2 (d i + k) = v2 i (mem s1) k"
    and frame2: "\<And>x. (\<forall>i. a \<le> i \<and> i < b \<longrightarrow> \<not> in_range (d i) n x) \<Longrightarrow> mem s2 x = mem s1 x"
    using t1 by auto
  have r1: "Option.bind (forLoop 0 a body1 st) (forLoop a b body2) = Some s2"
    using run1 run2 by simp
  have r2: "length (chans s2) = length (chans st)"
    using len1 len2 by simp
  have r3: "chans s2 ! i = d i" if "i < b" for i
  proof (cases "i < a")
    case True
    then show ?thesis using keep2 ch1 by simp
  next
    case False
    then have "a \<le> i" by simp
    from ch2 [OF this that] \<open>a \<le> i\<close> show ?thesis by simp
  qed
  have r4: "mem s2 (d i + k) = v1 i (mem st) k" if "i < a" "k < n" for i k
  proof -
    have "\<forall>j. a \<le> j \<and> j < b \<longrightarrow> \<not> in_range (d j) n (d i + k)"
    proof (intro allI impI)
      fix j assume "a \<le> j \<and> j < b"
      with that(1) have "i < j" "j < b" by auto
      then have "disjoint_ranges n (d i) (d j)" by (rule sep)
      then show "\<not> in_range (d j) n (d i + k)" using that(2) by (rule disjoint_not_in_range)
    qed
    then have "mem s2 (d i + k) = mem s1 (d i + k)" by (rule frame2)
    with val1 [OF that] show ?thesis by simp
  qed
  have r5: "mem s2 (d i + k) = v2 i (mem st) k" if "a \<le> i" "i < b" "k < n" for i k
  proof -
    have "v2 i (mem s1) k = v2 i (mem st) k"
    proof (rule reads2 [OF that])
      fix x assume "\<forall>j. j < b \<longrightarrow> \<not> in_range (d j) n x"
      with ab have "\<forall>j. j < a \<longrightarrow> \<not> in_range (d j) n x" by auto
      then show "mem s1 x = mem st x" by (rule frame1)
    qed
    with val2 [OF that] show ?thesis by simp
  qed
  from r1 r2 r3 r4 r5 show ?thesis by blast
qed

lemma pairwise_separate_nth:
  "pairwise_separate n ps \<Longrightarrow> i < j \<Longrightarrow> j < length ps \<Longrightarrow> disjoint_ranges n (ps ! i) (ps ! j)"
proof (induction ps arbitrary: i j)
  case Nil
  then show ?case by simp
next
  case (Cons p ps)
  show ?case
  proof (cases i)
    case 0
    with Cons.prems show ?thesis
      by (cases j) (auto simp: list_all_length)
  next
    case (Suc i')
    with Cons.prems obtain j' where "j = Suc j'" "i' < j'" "j' < length ps"
      by (cases j) auto
    with Cons Suc show ?thesis by simp
  qed
qed

lemma separate_nth:
  "separate n ps qs \<Longrightarrow> i < length ps \<Longrightarrow> j < length qs \<Longrightarrow> disjoint_ranges n (ps ! i) (qs ! j)"
  by (simp add: separate_def list_all_length)

lemma seed_reads:
  assumes "separate n ds sysIns" "k < n"
    and "\<And>x. (\<forall>j. j < length ds \<longrightarrow> \<not> in_range (ds ! j) n x) \<Longrightarrow> m x = m' x"
  shows "seed sysIns i m k = seed sysIns i m' (k::nat)"
proof (cases "sysIns = []")
  case True
  then show ?thesis by (simp add: seed_def)
next
  case False
  then have lt: "i mod length sysIns < length sysIns" by simp
  have "\<forall>j. j < length ds \<longrightarrow> \<not> in_range (ds ! j) n (sysIns ! (i mod length sysIns) + k)"
  proof (intro allI impI)
    fix j assume "j < length ds"
    from separate_nth [OF assms(1) this lt]
    have "disjoint_ranges n (ds ! j) (sysIns ! (i mod length sysIns))" .
    then have "disjoint_ranges n (sysIns ! (i mod length sysIns)) (ds ! j)"
      by (rule disjoint_ranges_sym)
    then show "\<not> in_range (ds ! j) n (sysIns ! (i mod length sysIns) + k)"
      using assms(2) by (rule disjoint_not_in_range)
  qed
  then have "m (sysIns ! (i mod length sysIns) + k) = m' (sysIns ! (i mod length sysIns) + k)"
    by (rule assms(3))
  with False show ?thesis by (simp add: seed_def)
qed

lemma initialiseIoBuffers_defined:
  fixes m :: "'f::zero memory"
  assumes room: "max processorIns processorOuts \<le> length chs"
    and outs_len: "processorOuts \<le> length sysOuts"
    and temps: "processorIns - processorOuts \<le> length (chanPtrs tb)"
    and samples: "processorOuts < processorIns \<longrightarrow> numSamples \<le> bufSamples tb"
    and sep: "pairwise_separate numSamples (destinations processorIns processorOuts sysOuts tb)"
    and sep_ins: "separate numSamples (destinations processorIns processorOuts sysOuts tb) sysIns"
  shows "\<exists>chs' m'.
           initialiseIoBuffers sysIns sysOuts numSamples processorIns processorOuts tb chs m
             = Some (chs', m') \<and>
           length chs' = length chs \<and>
           (\<forall>i < max processorIns processorOuts.
              chs' ! i = destinations processorIns processorOuts sysOuts tb ! i \<and>
              (\<forall>k < numSamples. m' (chs' ! i + k) = expected sysIns processorIns m i k))"
proof -
  define ds where "ds = destinations processorIns processorOuts sysOuts tb"
  define st0 :: "'f io" where "st0 = \<lparr>chans = chs, mem = m, totalNumChans = 0\<rparr>"
  have len_ds: "length ds = max processorIns processorOuts"
    using outs_len temps by (auto simp: ds_def destinations_def)
  have ds_out: "ds ! i = sysOuts ! i" if "i < processorOuts" for i
    using that outs_len by (simp add: ds_def destinations_def nth_append)
  have ds_temp: "ds ! i = chanPtrs tb ! (i - processorOuts)"
    if "processorOuts \<le> i" "i < processorIns" for i
    using that outs_len temps by (simp add: ds_def destinations_def nth_append)
  have pair: "disjoint_ranges numSamples (ds ! i) (ds ! j)" if "i < j" "j < length ds" for i j
    using sep that unfolding ds_def by (rule pairwise_separate_nth)
  have step_in: "\<exists>st'. inputSlot sysIns numSamples i (Some (ds ! i)) st = Some st' \<and>
           chans st' = (chans st)[totalNumChans st := ds ! i] \<and>
           mem st' = (\<lambda>x. if in_range (ds ! i) numSamples x
                          then seed sysIns i (mem st) (x - ds ! i) else mem st x) \<and>
           totalNumChans st' = Suc (totalNumChans st)"
    if "i < length ds" "totalNumChans st < length (chans st)" for i and st :: "'f io"
  proof (rule inputSlot_Some [OF that(2)])
    show "sysIns \<noteq> [] \<longrightarrow> disjoint_ranges numSamples (ds ! i) (sysIns ! (i mod length sysIns))"
      using sep_ins that(1) unfolding ds_def by (auto intro: separate_nth)
  qed
  have reads_in: "seed sysIns i m1 k = seed sysIns i m2 k"
    if "k < numSamples"
      "\<And>x. (\<forall>j. j < length ds \<longrightarrow> \<not> in_range (ds ! j) numSamples x) \<Longrightarrow> m1 x = m2 x"
    for i k and m1 m2 :: "'f memory"
    using sep_ins that unfolding ds_def by (rule seed_reads)
  show ?thesis
  proof (cases "processorIns > processorOuts")
    case True
    then have mx: "max processorIns processorOuts = processorIns" by simp
    let ?b1 = "\<lambda>i. inputSlot sysIns numSamples i (nth_opt sysOuts i)"
    let ?b2 = "\<lambda>i. inputSlot sysIns numSamples i (tempChannel tb numSamples (i - processorOuts))"
    have "\<exists>st'. Option.bind (forLoop 0 processorOuts ?b1 st0) (forLoop processorOuts processorIns ?b2) = Some st' \<and>
           length (chans st') = length (chans st0) \<and>
           (\<forall>i<processorIns. chans st' ! i = ds ! i) \<and>
           (\<forall>i k. i < processorOuts \<and> k < numSamples \<longrightarrow> mem st' (ds ! i + k) = seed sysIns i (mem st0) k) \<and>
           (\<forall>i k. processorOuts \<le> i \<and> i < processorIns \<and> k < numSamples \<longrightarrow>
                  mem st' (ds ! i + k) = seed sysIns i (mem st0) k)"
    proof (rule two_slot_loops [where ?v1.0 = "seed sysIns" and ?v2.0 = "seed sysIns"])
      show "\<exists>st'. ?b1 i st = Some st' \<and>
           chans st' = (chans st)[totalNumChans st := ds ! i] \<and>
           mem st' = (\<lambda>x. if in_range (ds ! i) numSamples x
                          then seed sysIns i (mem st) (x - ds ! i) else mem st x) \<and>
           totalNumChans st' = Suc (totalNumChans st)"
        if "i < processorOuts" "totalNumChans st < length (chans st)" for i and st :: "'f io"
      proof -
        from that outs_len ds_out [OF that(1)] have "nth_opt sysOuts i = Some (ds ! i)"
          by (simp add: nth_opt_def)
        with step_in [of i st] that len_ds mx True show ?thesis by simp
      qed
      show "\<exists>st'. ?b2 i st = Some st' \<and>
           chans st' = (chans st)[totalNumChans st := ds ! i] \<and>
           mem st' = (\<lambda>x. if in_range (ds ! i) numSamples x
                          then seed sysIns i (mem st) (x - ds ! i) else mem st x) \<and>
           totalNumChans st' = Suc (totalNumChans st)"
        if "processorOuts \<le> i" "i < processorIns" "totalNumChans st < length (chans st)"
        for i and st :: "'f io"
      proof -
        from that temps have "i - processorOuts < length (chanPtrs tb)" by arith
        with samples True ds_temp [OF that(1,2)]
        have "tempChannel tb numSamples (i - processorOuts) = Some (ds ! i)"
          by (simp add: nth_opt_def tempChannel_def getWritePointer_def)
        with step_in [of i st] that len_ds mx show ?thesis by simp
      qed
      show "seed sysIns i m1 k = seed sysIns i m2 k"
        if "k < numSamples"
          "\<And>x. (\<forall>j. j < processorIns \<longrightarrow> \<not> in_range (ds ! j) numSamples x) \<Longrightarrow> m1 x = m2 x"
        for i k and m1 m2 :: "'f memory"
        using that len_ds mx by (intro reads_in) auto
      show "seed sysIns i m1 k = seed sysIns i m2 k"
        if "k < numSamples"
          "\<And>x. (\<forall>j. j < processorIns \<longrightarrow> \<not> in_range (ds ! j) numSamples x) \<Longrightarrow> m1 x = m2 x"
        for i k and m1 m2 :: "'f memory"
        using that len_ds mx by (intro reads_in) auto
      show "disjoint_ranges numSamples (ds ! i) (ds ! j)" if "i < j" "j < processorIns" for i j
        using that len_ds mx by (intro pair) auto
      show "processorOuts \<le> processorIns" using True by simp
      show "processorIns \<le> length (chans st0)" using room mx by (simp add: st0_def)
      show "totalNumChans st0 = 0" by (simp add: st0_def)
    qed
    then obtain st' where
      run: "Option.bind (forLoop 0 processorOuts ?b1 st0) (forLoop processorOuts processorIns ?b2) = Some st'"
      and len: "length (chans st') = length chs"
      and ch: "\<And>i. i < processorIns \<Longrightarrow> chans st' ! i = ds ! i"
      and v1: "\<And>i k. i < processorOuts \<Longrightarrow> k < numSamples \<Longrightarrow> mem st' (ds ! i + k) = seed sysIns i m k"
      and v2: "\<And>i k. processorOuts \<le> i \<Longrightarrow> i < processorIns \<Longrightarrow> k < numSamples \<Longrightarrow>
                  mem st' (ds ! i + k) = seed sysIns i m k"
      by (auto simp: st0_def)
    have res: "initialiseIoBuffers sysIns sysOuts numSamples processorIns processorOuts tb chs m
             = Some (chans st', mem st')"
      using run True by (auto simp: initialiseIoBuffers_def st0_def Let_def bind_eq_Some_conv)
    have vals: "mem st' (chans st' ! i + k) = expected sysIns processorIns m i k"
      if "i < processorIns" "k < numSamples" for i k
    proof -
      have "mem st' (ds ! i + k) = seed sysIns i m k"
        using v1 [of i k] v2 [of i k] that by (cases "i < processorOuts") auto
      with ch [OF that(1)] that(1) show ?thesis
        by (auto simp: expected_def seed_def)
    qed
    from res len ch vals mx show ?thesis
      unfolding ds_def by auto
  next
    case False
    then have mx: "max processorIns processorOuts = processorOuts" by simp
    let ?b1 = "\<lambda>i. inputSlot sysIns numSamples i (nth_opt sysOuts i)"
    let ?b2 = "\<lambda>i. zeroSlot numSamples (nth_opt sysOuts i) :: 'f io \<Rightarrow> 'f io option"
    have "\<exists>st'. Option.bind (forLoop 0 processorIns ?b1 st0) (forLoop processorIns processorOuts ?b2) = Some st' \<and>
           length (chans st') = length (chans st0) \<and>
           (\<forall>i<processorOuts. chans st' ! i = ds ! i) \<and>
           (\<forall>i k. i < processorIns \<and> k < numSamples \<longrightarrow> mem st' (ds ! i + k) = seed sysIns i (mem st0) k) \<and>
           (\<forall>i k. processorIns \<le> i \<and> i < processorOuts \<and> k < numSamples \<longrightarrow>
                  mem st' (ds ! i + k) = (\<lambda>i m k. 0) i (mem st0) k)"
    proof (rule two_slot_loops [where ?v1.0 = "seed sysIns" and ?v2.0 = "\<lambda>i m k. 0"])
      show "\<exists>st'. ?b1 i st = Some st' \<and>
           chans st' = (chans st)[totalNumChans st := ds ! i] \<and>
           mem st' = (\<lambda>x. if in_range (ds ! i) numSamples x
                          then seed sysIns i (mem st) (x - ds ! i) else mem st x) \<and>
           totalNumChans st' = Suc (totalNumChans st)"
        if "i < processorIns" "totalNumChans st < length (chans st)" for i and st :: "'f io"
      proof -
        from that False have i: "i < processorOuts" by simp
        from i outs_len ds_out [OF i] have "nth_opt sysOuts i = Some (ds ! i)"
          by (simp add: nth_opt_def)
        with step_in [of i st] that len_ds mx i show ?thesis by simp
      qed
      show "\<exists>st'. ?b2 i st = Some st' \<and>
           chans st' = (chans st)[totalNumChans st := ds ! i] \<and>
           mem st' = (\<lambda>x. if in_range (ds ! i) numSamples x
                          then (\<lambda>i m k. 0) i (mem st) (x - ds ! i) else mem st x) \<and>
           totalNumChans st' = Suc (totalNumChans st)"
        if "processorIns \<le> i" "i < processorOuts" "totalNumChans st < length (chans st)"
        for i and st :: "'f io"
      proof -
        from that outs_len ds_out [OF that(2)] have "nth_opt sysOuts i = Some (ds ! i)"
          by (simp add: nth_opt_def)
        with zeroSlot_Some [OF that(3), of numSamples "ds ! i"] show ?thesis by simp
      qed
      show "seed sysIns i m1 k = seed sysIns i m2 k"
        if "k < numSamples"
          "\<And>x. (\<forall>j. j < processorOuts \<longrightarrow> \<not> in_range (ds ! j) numSamples x) \<Longrightarrow> m1 x = m2 x"
        for i k and m1 m2 :: "'f memory"
        using that len_ds mx by (intro reads_in) auto
      show "disjoint_ranges numSamples (ds ! i) (ds ! j)" if "i < j" "j < processorOuts" for i j
        using that len_ds mx by (intro pair) auto
      show "processorIns \<le> processorOuts" using False by simp
      show "processorOuts \<le> length (chans st0)" using room mx by (simp add: st0_def)
      show "totalNumChans st0 = 0" by (simp add: st0_def)
    qed simp
    then obtain st' where
      run: "Option.bind (forLoop 0 processorIns ?b1 st0) (forLoop processorIns processorOuts ?b2) = Some st'"
      and len: "length (chans st') = length chs"
      and ch: "\<And>i. i < processorOuts \<Longrightarrow> chans st' ! i = ds ! i"
      and v1: "\<And>i k. i < processorIns \<Longrightarrow> k < numSamples \<Longrightarrow> mem st' (ds ! i + k) = seed sysIns i m k"
      and v2: "\<And>i k. processorIns \<le> i \<Longrightarrow> i < processorOuts \<Longrightarrow> k < numSamples \<Longrightarrow>
                  mem st' (ds ! i + k) = 0"
      by (auto simp: st0_def)
    have res: "initialiseIoBuffers sysIns sysOuts numSamples processorIns processorOuts tb chs m
             = Some (chans st', mem st')"
      using run False by (auto simp: initialiseIoBuffers_def st0_def Let_def bind_eq_Some_conv)
    have vals: "mem st' (chans st' ! i + k) = expected sysIns processorIns m i k"
      if "i < processorOuts" "k < numSamples" for i k
    proof (cases "i < processorIns")
      case True
      from v1 [OF True that(2)] ch [OF that(1)] True show ?thesis
        by (auto simp: expected_def seed_def)
    next
      case False
      then have "processorIns \<le> i" by simp
      from v2 [OF this that] ch [OF that(1)] this show ?thesis
        by (simp add: expected_def)
    qed
    from res len ch vals mx show ?thesis
      unfolding ds_def by auto
  qed
qed



section \<open>How the operations change the state\<close>

lemma findMostSuitableLayout_negotiated:
  "\<not> isMidiEffect proc \<Longrightarrow>
   findMostSuitableLayout s proc =
     negotiated (deviceChannels s) (ins (defaultProcessorChannels s)) (checkBusesLayoutSupported proc)"
  by (simp add: findMostSuitableLayout_def negotiated_def Let_def)

lemma call_simps [simp]:
  "trace (call e s) = trace s @ [(e, processor s)]"
  "processor (call e s) = processor s"
  "isPrepared (call e s) = isPrepared s"
  "sampleRate (call e s) = sampleRate s"
  "blockSize (call e s) = blockSize s"
  "isDoublePrecision (call e s) = isDoublePrecision s"
  "procs (call e s) = procs s"
  "deviceChannels (call e s) = deviceChannels s"
  "defaultProcessorChannels (call e s) = defaultProcessorChannels s"
  "actualProcessorChannels (call e s) = actualProcessorChannels s"
  "sampleCount (call e s) = sampleCount s"
  "currentWorkgroup (call e s) = currentWorkgroup s"
  "currentDevice (call e s) = currentDevice s"
  "midiOutput (call e s) = midiOutput s"
  "incomingMidi (call e s) = incomingMidi s"
  "memory (call e s) = memory s"
  by (simp_all add: call_def)

lemma setProcessingPrecision_simps [simp]:
  "trace (setProcessingPrecision p x s) = trace s @ [(SetProcessingPrecision p x, processor s)]"
  "processor (setProcessingPrecision p x s) = processor s"
  "isPrepared (setProcessingPrecision p x s) = isPrepared s"
  "sampleRate (setProcessingPrecision p x s) = sampleRate s"
  "blockSize (setProcessingPrecision p x s) = blockSize s"
  "isDoublePrecision (setProcessingPrecision p x s) = isDoublePrecision s"
  "procs (setProcessingPrecision p x s) = (procs s)(p := (procs s p)\<lparr>processingPrecision := x\<rparr>)"
  "deviceChannels (setProcessingPrecision p x s) = deviceChannels s"
  "actualProcessorChannels (setProcessingPrecision p x s) = actualProcessorChannels s"
  "sampleCount (setProcessingPrecision p x s) = sampleCount s"
  by (simp_all add: setProcessingPrecision_def)

lemma setSize_simps [simp]:
  "trace (setSize c n s) = trace s"
  "processor (setSize c n s) = processor s"
  "isPrepared (setSize c n s) = isPrepared s"
  "sampleRate (setSize c n s) = sampleRate s"
  "blockSize (setSize c n s) = blockSize s"
  "isDoublePrecision (setSize c n s) = isDoublePrecision s"
  "procs (setSize c n s) = procs s"
  "deviceChannels (setSize c n s) = deviceChannels s"
  "actualProcessorChannels (setSize c n s) = actualProcessorChannels s"
  "sampleCount (setSize c n s) = sampleCount s"
  by (simp_all add: setSize_def Let_def)

lemma resizeChannels_simps [simp]:
  "trace (resizeChannels s) = trace s"
  "processor (resizeChannels s) = processor s"
  "isPrepared (resizeChannels s) = isPrepared s"
  "sampleRate (resizeChannels s) = sampleRate s"
  "blockSize (resizeChannels s) = blockSize s"
  "isDoublePrecision (resizeChannels s) = isDoublePrecision s"
  "procs (resizeChannels s) = procs s"
  "deviceChannels (resizeChannels s) = deviceChannels s"
  "actualProcessorChannels (resizeChannels s) = actualProcessorChannels s"
  "sampleCount (resizeChannels s) = sampleCount s"
  by (simp_all add: resizeChannels_def Let_def)

lemma prepareNewProcessor_trace:
  "trace (prepareNewProcessor p s) =
     trace s @ tagged (processor s)
       (attachEvents p (procs s p) (deviceChannels s) (sampleRate s) (blockSize s) (isDoublePrecision s))"
proof (cases "isMidiEffect (procs s p)")
  case True
  then show ?thesis
    by (simp add: prepareNewProcessor_def Let_def attachEvents_def tagged_def)
next
  case False
  then have "findMostSuitableLayout (s\<lparr>defaultProcessorChannels := getBusesLayout (procs s p)\<rparr>) (procs s p) =
      negotiated (deviceChannels s) (ins (getBusesLayout (procs s p)))
        (checkBusesLayoutSupported (procs s p))"
    by (simp add: findMostSuitableLayout_negotiated)
  with False show ?thesis
    by (simp add: prepareNewProcessor_def Let_def attachEvents_def tagged_def)
qed

lemma prepareNewProcessor_simps [simp]:
  "processor (prepareNewProcessor p s) = processor s"
  "isPrepared (prepareNewProcessor p s) = isPrepared s"
  "sampleRate (prepareNewProcessor p s) = sampleRate s"
  "blockSize (prepareNewProcessor p s) = blockSize s"
  "isDoublePrecision (prepareNewProcessor p s) = isDoublePrecision s"
  "deviceChannels (prepareNewProcessor p s) = deviceChannels s"
  "sampleCount (prepareNewProcessor p s) = sampleCount s"
  by (simp_all add: prepareNewProcessor_def Let_def)

lemma prepareNewProcessor_procs:
  "procs (prepareNewProcessor p s) =
     (procs s)(p := (procs s p)\<lparr>processingPrecision :=
        (if supportsDoublePrecisionProcessing (procs s p) \<and> isDoublePrecision s
         then doublePrecision else singlePrecision)\<rparr>)"
  by (simp add: prepareNewProcessor_def Let_def)

lemma prepareNewProcessor_layout:
  "actualProcessorChannels (prepareNewProcessor p s) =
     findMostSuitableLayout (s\<lparr>defaultProcessorChannels := getBusesLayout (procs s p)\<rparr>) (procs s p)"
  by (simp add: prepareNewProcessor_def Let_def)

lemma setProcessor_trace:
  "processor s \<noteq> new \<Longrightarrow>
   trace (setProcessor new s) =
     trace s @
     tagged (processor s)
       (case new of
          None \<Rightarrow> []
        | Some p \<Rightarrow>
            if 0 < sampleRate s \<and> 0 < blockSize s
            then attachEvents p (procs s p) (deviceChannels s) (sampleRate s) (blockSize s)
                   (isDoublePrecision s)
            else []) @
     (case (if isPrepared s then processor s else None) of
        None \<Rightarrow> []
      | Some old \<Rightarrow> [(ReleaseResources old, new)])"
  by (cases new)
     (auto simp: setProcessor_def Let_def prepareNewProcessor_trace tagged_def split: option.splits)

lemma setProcessor_fields:
  "processor s \<noteq> new \<Longrightarrow> processor (setProcessor new s) = new"
  "processor s \<noteq> new \<Longrightarrow> isPrepared (setProcessor new s)"
  "sampleRate (setProcessor new s) = sampleRate s"
  "blockSize (setProcessor new s) = blockSize s"
  "isDoublePrecision (setProcessor new s) = isDoublePrecision s"
  "deviceChannels (setProcessor new s) = deviceChannels s"
  by (auto simp: setProcessor_def Let_def split: option.splits)

lemma setProcessor_procs:
  "procs (setProcessor new s) =
     (case new of
        None \<Rightarrow> procs s
      | Some p \<Rightarrow>
          if processor s \<noteq> new \<and> 0 < sampleRate s \<and> 0 < blockSize s
          then (procs s)(p := (procs s p)\<lparr>processingPrecision :=
                 (if supportsDoublePrecisionProcessing (procs s p) \<and> isDoublePrecision s
                  then doublePrecision else singlePrecision)\<rparr>)
          else procs s)"
  by (auto simp: setProcessor_def Let_def prepareNewProcessor_procs split: option.splits)

lemma setProcessor_layout:
  "processor s \<noteq> Some p \<Longrightarrow> 0 < sampleRate s \<Longrightarrow> 0 < blockSize s \<Longrightarrow>
   actualProcessorChannels (setProcessor (Some p) s) =
     findMostSuitableLayout (s\<lparr>defaultProcessorChannels := getBusesLayout (procs s p)\<rparr>) (procs s p)"
  by (simp add: setProcessor_def Let_def prepareNewProcessor_layout findMostSuitableLayout_def
      split: option.splits)

lemma audioDeviceAboutToStart_trace:
  assumes "processor s = Some p" and "isPrepared s"
  shows "trace (audioDeviceAboutToStart device s) =
           trace s @ [(ReleaseResources p, Some p), (ReleaseResources p, None)] @
           tagged None
             (if 0 < getCurrentSampleRate device \<and> 0 < getCurrentBufferSizeSamples device
              then attachEvents p (procs s p)
                     \<lparr>ins = countNumberOfSetBits (getActiveInputChannels device),
                      outs = countNumberOfSetBits (getActiveOutputChannels device)\<rparr>
                     (getCurrentSampleRate device) (getCurrentBufferSizeSamples device)
                     (isDoublePrecision s)
              else [])"
    and "processor (audioDeviceAboutToStart device s) = Some p"
proof -
  define s4 where "s4 = (resizeChannels (s\<lparr>currentDevice := Some device,
      sampleRate := getCurrentSampleRate device, blockSize := getCurrentBufferSizeSamples device,
      deviceChannels := \<lparr>ins = countNumberOfSetBits (getActiveInputChannels device),
                         outs = countNumberOfSetBits (getActiveOutputChannels device)\<rparr>\<rparr>))
      \<lparr>messageCollector := [], currentWorkgroup := None\<rparr>"
  define s5 where "s5 = call (ReleaseResources p) s4"
  define s6 where "s6 = setProcessor None s5"
  have f4: "processor s4 = Some p" "isPrepared s4" "trace s4 = trace s" "procs s4 = procs s"
    "sampleRate s4 = getCurrentSampleRate device" "blockSize s4 = getCurrentBufferSizeSamples device"
    "isDoublePrecision s4 = isDoublePrecision s"
    "deviceChannels s4 = \<lparr>ins = countNumberOfSetBits (getActiveInputChannels device),
                         outs = countNumberOfSetBits (getActiveOutputChannels device)\<rparr>"
    using assms by (simp_all add: s4_def)
  have f5: "processor s5 = Some p" "isPrepared s5"
    "trace s5 = trace s @ [(ReleaseResources p, Some p)]" "procs s5 = procs s"
    "sampleRate s5 = getCurrentSampleRate device" "blockSize s5 = getCurrentBufferSizeSamples device"
    "isDoublePrecision s5 = isDoublePrecision s"
    "deviceChannels s5 = \<lparr>ins = countNumberOfSetBits (getActiveInputChannels device),
                         outs = countNumberOfSetBits (getActiveOutputChannels device)\<rparr>"
    using f4 by (simp_all add: s5_def)
  have ne5: "processor s5 \<noteq> None" using f5 by simp
  have f6: "processor s6 = None" "isPrepared s6"
    "trace s6 = trace s @ [(ReleaseResources p, Some p), (ReleaseResources p, None)]"
    "procs s6 = procs s"
    "sampleRate s6 = getCurrentSampleRate device" "blockSize s6 = getCurrentBufferSizeSamples device"
    "isDoublePrecision s6 = isDoublePrecision s"
    "deviceChannels s6 = \<lparr>ins = countNumberOfSetBits (getActiveInputChannels device),
                         outs = countNumberOfSetBits (getActiveOutputChannels device)\<rparr>"
    using setProcessor_trace [OF ne5] setProcessor_fields(1,2) [OF ne5] f5
    by (simp_all add: s6_def setProcessor_fields setProcessor_procs tagged_def)
  have ne6: "processor s6 \<noteq> Some p" using f6 by simp
  have run: "audioDeviceAboutToStart device s = setProcessor (Some p) s6"
    unfolding s6_def s5_def s4_def audioDeviceAboutToStart_def Let_def
    using assms by simp
  show "trace (audioDeviceAboutToStart device s) =
           trace s @ [(ReleaseResources p, Some p), (ReleaseResources p, None)] @
           tagged None
             (if 0 < getCurrentSampleRate device \<and> 0 < getCurrentBufferSizeSamples device
              then attachEvents p (procs s p)
                     \<lparr>ins = countNumberOfSetBits (getActiveInputChannels device),
                      outs = countNumberOfSetBits (getActiveOutputChannels device)\<rparr>
                     (getCurrentSampleRate device) (getCurrentBufferSizeSamples device)
                     (isDoublePrecision s)
              else [])"
    unfolding run using setProcessor_trace [OF ne6] f6 by (simp add: tagged_def)
  show "processor (audioDeviceAboutToStart device s) = Some p"
    unfolding run using setProcessor_fields(1) [OF ne6] .
qed

section \<open>How the callback changes the state\<close>

lemma fold_zeromem:
  "fold (\<lambda>p. zeromem p n) ps m a = (if \<exists>p \<in> set ps. in_range p n a then 0 else m a)"
  by (induction ps arbitrary: m) (auto simp: zeromem_def)

lemma clearOutputs_zero:
  "q \<in> set outD \<Longrightarrow> k < n \<Longrightarrow> memory (clearOutputs outD n s) (q + k) = 0"
  using in_range_self [of k n q] by (auto simp: clearOutputs_def fold_zeromem)

lemma clearOutputs_simps [simp]:
  "trace (clearOutputs outD n s) = trace s"
  "procs (clearOutputs outD n s) = procs s"
  "sampleCount (clearOutputs outD n s) = sampleCount s"
  "processor (clearOutputs outD n s) = processor s"
  "currentWorkgroup (clearOutputs outD n s) = currentWorkgroup s"
  by (simp_all add: clearOutputs_def)

lemma setPlayHead_simps [simp]:
  "trace (setPlayHead p h s) = trace s @ [(SetPlayHead p h, processor s)]"
  "procs (setPlayHead p h s) = (procs s)(p := (procs s p)\<lparr>getPlayHead := h\<rparr>)"
  "sampleCount (setPlayHead p h s) = sampleCount s"
  "processor (setPlayHead p h s) = processor s"
  "sampleRate (setPlayHead p h s) = sampleRate s"
  "midiOutput (setPlayHead p h s) = midiOutput s"
  "currentWorkgroup (setPlayHead p h s) = currentWorkgroup s"
  by (simp_all add: setPlayHead_def)

lemma updateWorkgroup_simps [simp]:
  "trace (updateWorkgroup p device s) = trace s @ tagged (processor s) (workgroupEvents p device s)"
  "procs (updateWorkgroup p device s) = procs s"
  "sampleCount (updateWorkgroup p device s) = sampleCount s"
  "processor (updateWorkgroup p device s) = processor s"
  "sampleRate (updateWorkgroup p device s) = sampleRate s"
  "midiOutput (updateWorkgroup p device s) = midiOutput s"
  "currentWorkgroup (updateWorkgroup p device s) = getWorkgroup device"
  by (simp_all add: updateWorkgroup_def Let_def workgroupEvents_def tagged_def)

lemma invokeProcessBlock_simps [simp]:
  "trace (invokeProcessBlock cv p buffer n s) =
     trace s @ [(ProcessBlock p (processingPrecision (procs s p)), processor s)]"
  "procs (invokeProcessBlock cv p buffer n s) = procs s"
  "sampleCount (invokeProcessBlock cv p buffer n s) = sampleCount s"
  "processor (invokeProcessBlock cv p buffer n s) = processor s"
  "sampleRate (invokeProcessBlock cv p buffer n s) = sampleRate s"
  "midiOutput (invokeProcessBlock cv p buffer n s) = midiOutput s"
  by (cases "processingPrecision (procs s p)";
      simp add: invokeProcessBlock_def Let_def isUsingDoublePrecision_def)+

lemma sendMidiOutput_simps [simp]:
  "procs (sendMidiOutput s) = procs s"
  "sampleCount (sendMidiOutput s) = sampleCount s"
  "processor (sendMidiOutput s) = processor s"
  by (simp_all add: sendMidiOutput_def split: option.splits)

lemma sendMidiOutput_trace_eq:
  "trace (sendMidiOutput s) = trace s @ tagged (processor s) (sendEvents s)"
  by (simp add: sendMidiOutput_def sendEvents_def tagged_def split: option.splits)

lemma sendEvents_isSend: "e \<in> set (sendEvents s) \<Longrightarrow> isSend e"
  by (auto simp: sendEvents_def split: option.splits if_splits)

lemma routable_routes:
  fixes m :: "'f::zero memory"
  assumes "routable sysIns sysOuts numSamples processorIns processorOuts tb chs"
  shows "\<exists>chs' m'.
           initialiseIoBuffers sysIns sysOuts numSamples processorIns processorOuts tb chs m
             = Some (chs', m') \<and>
           length chs' = length chs \<and>
           (\<forall>i < max processorIns processorOuts.
              chs' ! i = destinations processorIns processorOuts sysOuts tb ! i \<and>
              (\<forall>k < numSamples. m' (chs' ! i + k) = expected sysIns processorIns m i k))"
proof (rule initialiseIoBuffers_defined)
  from assms show "max processorIns processorOuts \<le> length chs"
    and "processorOuts \<le> length sysOuts"
    and "processorIns - processorOuts \<le> length (chanPtrs tb)"
    and "pairwise_separate numSamples (destinations processorIns processorOuts sysOuts tb)"
    and "separate numSamples (destinations processorIns processorOuts sysOuts tb) sysIns"
    by (simp_all add: routable_def)
  from assms show "processorOuts < processorIns \<longrightarrow> numSamples \<le> bufSamples tb"
    by (simp add: routable_def split: if_splits)
qed

lemma routable_defined:
  fixes m :: "'f::zero memory"
  assumes "routable sysIns sysOuts numSamples processorIns processorOuts tb chs"
  shows "\<exists>r. initialiseIoBuffers sysIns sysOuts numSamples processorIns processorOuts tb chs m = Some r"
  using routable_routes [OF assms, of m] by blast

lemma callback_without_processor:
  fixes s :: "('f::zero, 'd) AudioProcessorPlayer"
  assumes routing: "initialiseIoBuffers inD outD n (size_t (ins (actualProcessorChannels s)))
                (size_t (outs (actualProcessorChannels s))) (tempBuffer s) (channels s) (memory s)
              \<noteq> None"
    and none: "processor s = None"
  shows "\<exists>s'. audioDeviceIOCallbackWithContext cv inD outD n hostTimeNs s = Some s' \<and>
           trace s' = trace s \<and> sampleCount s' = sampleCount s \<and> procs s' = procs s \<and>
           currentWorkgroup s' = currentWorkgroup s \<and>
           (\<forall>q \<in> set outD. \<forall>k < n. memory s' (q + k) = 0)"
proof -
  from routing obtain routed where
    "initialiseIoBuffers inD outD n (size_t (ins (actualProcessorChannels s)))
       (size_t (outs (actualProcessorChannels s))) (tempBuffer s) (channels s) (memory s) = Some routed"
    by blast
  with none show ?thesis
    by (simp add: audioDeviceIOCallbackWithContext_def Let_def clearOutputs_zero)
qed

lemma callback_suspended:
  fixes s :: "('f::zero, 'd) AudioProcessorPlayer"
  assumes routing: "initialiseIoBuffers inD outD n (size_t (ins (actualProcessorChannels s)))
                (size_t (outs (actualProcessorChannels s))) (tempBuffer s) (channels s) (memory s)
              \<noteq> None"
    and hosted: "processor s = Some p" "currentDevice s = Some device"
    and susp: "isSuspended (procs s p)"
  shows "\<exists>s'. audioDeviceIOCallbackWithContext cv inD outD n hostTimeNs s = Some s' \<and>
           trace s' = trace s @ tagged (Some p)
             (workgroupEvents p device s @ installEvents p hostTimeNs s @ uninstallEvents p s) \<and>
           sampleCount s' = sampleCount s + of_nat n \<and>
           getPlayHead (procs s' p) = getPlayHead (procs s p) \<and>
           currentWorkgroup s' = getWorkgroup device \<and>
           (\<forall>q \<in> set outD. \<forall>k < n. memory s' (q + k) = 0)"
proof -
  from routing obtain routed where
    "initialiseIoBuffers inD outD n (size_t (ins (actualProcessorChannels s)))
       (size_t (outs (actualProcessorChannels s))) (tempBuffer s) (channels s) (memory s) = Some routed"
    by blast
  with hosted susp show ?thesis
    by (cases "getPlayHead (procs s p)")
       (simp_all add: audioDeviceIOCallbackWithContext_def Let_def clearOutputs_zero tagged_def
         workgroupEvents_def installEvents_def uninstallEvents_def)
qed

lemma routable_not_None:
  fixes m :: "'f::zero memory"
  assumes "routable sysIns sysOuts numSamples processorIns processorOuts tb chs"
  shows "initialiseIoBuffers sysIns sysOuts numSamples processorIns processorOuts tb chs m \<noteq> None"
  using routable_defined [OF assms, of m] by auto

lemma callback_processing:
  fixes s :: "('f::zero, 'd) AudioProcessorPlayer"
  assumes r: "routable inD outD n (size_t (ins (actualProcessorChannels s)))
                (size_t (outs (actualProcessorChannels s))) (tempBuffer s) (channels s)"
    and hosted: "processor s = Some p" "currentDevice s = Some device"
    and active: "\<not> isSuspended (procs s p)"
  shows "\<exists>s' sends. audioDeviceIOCallbackWithContext cv inD outD n hostTimeNs s = Some s' \<and>
           trace s' = trace s @ tagged (Some p)
             (workgroupEvents p device s @ installEvents p hostTimeNs s @
              [ProcessBlock p (processingPrecision (procs s p))] @ sends @ uninstallEvents p s) \<and>
           (\<forall>e \<in> set sends. isSend e) \<and>
           sampleCount s' = sampleCount s + of_nat n \<and>
           getPlayHead (procs s' p) = getPlayHead (procs s p)"
proof -
  from routable_defined [OF r, of "memory s"] obtain routed where
    "initialiseIoBuffers inD outD n (size_t (ins (actualProcessorChannels s)))
       (size_t (outs (actualProcessorChannels s))) (tempBuffer s) (channels s) (memory s) = Some routed"
    by blast
  with hosted active show ?thesis
    by (cases "getPlayHead (procs s p)")
       (auto simp: audioDeviceIOCallbackWithContext_def Let_def tagged_def
         workgroupEvents_def installEvents_def uninstallEvents_def sendMidiOutput_trace_eq
         intro: sendEvents_isSend)
qed

section \<open>C1: routing\<close>

text \<open>
  C1. For all processor channel counts and every number of system inputs, on buffers that
  meet the preconditions \<open>routable\<close>, \<open>initialiseIoBuffers\<close> returns, and afterwards each of
  the \<open>max processorIns processorOuts\<close> slots points at its destination buffer and holds,
  in its first \<open>numSamples\<close> samples: zeros when its index is at least \<open>processorIns\<close>;
  otherwise zeros when there is no system input, a copy of the single system input when
  there is exactly one, and a copy of system input \<open>i mod ins.size()\<close> in general.
\<close>

theorem initialiseIoBuffers_routing:
  fixes m :: "'f::zero memory"
  assumes "routable sysIns sysOuts numSamples processorIns processorOuts tb chs"
  shows "\<exists>chs' m'.
           initialiseIoBuffers sysIns sysOuts numSamples processorIns processorOuts tb chs m
             = Some (chs', m') \<and>
           length chs' = length chs \<and>
           (\<forall>i < max processorIns processorOuts.
              chs' ! i = destinations processorIns processorOuts sysOuts tb ! i \<and>
              (\<forall>k < numSamples. m' (chs' ! i + k) = expected sysIns processorIns m i k))"
  using assms by (rule routable_routes)

theorem initialiseIoBuffers_routing_witness:
  "routable [0, 2] [4] 2 3 1 \<lparr>chanPtrs = [6, 8], bufSamples = 2\<rparr> [0, 0, 0] \<and>
   (\<exists>chs' m'.
      initialiseIoBuffers [0, 2] [4] 2 3 1 \<lparr>chanPtrs = [6, 8], bufSamples = 2\<rparr> [0, 0, 0] ramp
        = Some (chs', m') \<and>
      length chs' = length [0, 0, 0 :: nat] \<and>
      (\<forall>i < max 3 1.
         chs' ! i = destinations 3 1 [4] \<lparr>chanPtrs = [6, 8], bufSamples = 2\<rparr> ! i \<and>
         (\<forall>k < 2. m' (chs' ! i + k) = expected [0, 2] 3 ramp i k)))"
proof -
  have r: "routable [0, 2] [4] 2 3 1 \<lparr>chanPtrs = [6, 8], bufSamples = 2\<rparr> [0, 0, 0]"
    by (simp add: routable_def destinations_def separate_def disjoint_ranges_def)
  from r initialiseIoBuffers_routing [OF r, of ramp] show ?thesis by blast
qed

text \<open>The same call, run: three processor inputs, one processor output, two system inputs;
  slot 0 is the system output, slots 1 and 2 are the temporary buffer.\<close>

lemma initialiseIoBuffers_example:
  "map_option (\<lambda>r. (fst r, map (snd r) [0..<12]))
     (initialiseIoBuffers [0, 2] [4] 2 3 1 \<lparr>chanPtrs = [6, 8], bufSamples = 2\<rparr> [0, 0, 0] ramp)
   = Some ([4, 6, 8], [1, 2, 3, 4, 1, 2, 3, 4, 1, 2, 11, 12])"
  by (simp add: initialiseIoBuffers_def forLoop.simps inputSlot_def setChannel_def
      prepareInputChannel_def nth_opt_def memcpy_def disjoint_ranges_def in_range_def
      tempChannel_def getWritePointer_def ramp_def upt_rec Let_def)

section \<open>C2: layout negotiation\<close>

text \<open>
  C2. For a processor that is not a MIDI effect, \<open>findMostSuitableLayout\<close> returns what the
  negotiation of the specification returns: the first accepted candidate among the
  device's counts and, only when the device has zero or one input, the declared input
  count with the device's outputs and then the device's output count on both sides; the
  device's counts when none is accepted. The result is a plain layout: no failure is
  signalled. The declared input count is the player's \<open>defaultProcessorChannels\<close>, which
  \<open>setProcessor\<close> sets from the processor's own layout just before it negotiates.
\<close>

theorem findMostSuitableLayout_order:
  assumes "\<not> isMidiEffect proc"
  shows "findMostSuitableLayout s proc =
           negotiated (deviceChannels s) (ins (defaultProcessorChannels s))
             (checkBusesLayoutSupported proc) \<and>
         (proc = procs s p \<and> processor s \<noteq> Some p \<and> 0 < sampleRate s \<and> 0 < blockSize s \<longrightarrow>
          actualProcessorChannels (setProcessor (Some p) s) =
            negotiated (deviceChannels s) (ins (getBusesLayout proc))
              (checkBusesLayoutSupported proc))"
  using assms by (auto simp: findMostSuitableLayout_negotiated setProcessor_layout)

theorem findMostSuitableLayout_order_witness:
  "\<not> isMidiEffect stereo_processor \<and>
   findMostSuitableLayout (idle_player\<lparr>deviceChannels := \<lparr>ins = 1, outs = 2\<rparr>,
       defaultProcessorChannels := \<lparr>ins = 2, outs = 2\<rparr>\<rparr>) stereo_processor = \<lparr>ins = 2, outs = 2\<rparr> \<and>
   actualProcessorChannels (setProcessor (Some 0)
       (idle_player\<lparr>deviceChannels := \<lparr>ins = 1, outs = 2\<rparr>, sampleRate := 44100, blockSize := 2\<rparr>))
     = \<lparr>ins = 2, outs = 2\<rparr>"
proof -
  have h: "\<not> isMidiEffect stereo_processor" by (simp add: stereo_processor_def)
  from findMostSuitableLayout_order [OF h,
      of "idle_player\<lparr>deviceChannels := \<lparr>ins = 1, outs = 2\<rparr>, defaultProcessorChannels := \<lparr>ins = 2, outs = 2\<rparr>\<rparr>" 0]
    findMostSuitableLayout_order [OF h,
      of "idle_player\<lparr>deviceChannels := \<lparr>ins = 1, outs = 2\<rparr>, sampleRate := 44100, blockSize := 2\<rparr>" 0]
    h
  show ?thesis
    by (simp add: negotiated_def stereo_processor_def idle_player_def)
qed

section \<open>C4: precision\<close>

text \<open>
  C4. An attach with a known device configuration, and a change of the double-precision
  mode while a processor is hosted, set the processor's precision to double exactly when
  the processor supports double precision and double precision is requested, to single
  otherwise; and the call of \<open>prepareToPlay\<close> follows the call that sets the precision.
\<close>

theorem precision_negotiation:
  "(processor s \<noteq> Some p \<and> 0 < sampleRate s \<and> 0 < blockSize s \<longrightarrow>
      processingPrecision (procs (setProcessor (Some p) s) p) =
        (if supportsDoublePrecisionProcessing (procs s p) \<and> isDoublePrecision s
         then doublePrecision else singlePrecision) \<and>
      trace (setProcessor (Some p) s) =
        trace s @
        tagged (processor s)
          (attachEvents p (procs s p) (deviceChannels s) (sampleRate s) (blockSize s)
             (isDoublePrecision s)) @
        (case (if isPrepared s then processor s else None) of
           None \<Rightarrow> []
         | Some old \<Rightarrow> [(ReleaseResources old, Some p)])) \<and>
   (processor s = Some p \<and> enable \<noteq> isDoublePrecision s \<longrightarrow>
      processingPrecision (procs (setDoublePrecisionProcessing enable s) p) =
        (if supportsDoublePrecisionProcessing (procs s p) \<and> enable
         then doublePrecision else singlePrecision) \<and>
      trace (setDoublePrecisionProcessing enable s) =
        trace s @
        tagged (Some p)
          [ReleaseResources p,
           SetProcessingPrecision p
             (if supportsDoublePrecisionProcessing (procs s p) \<and> enable
              then doublePrecision else singlePrecision),
           PrepareToPlay p (sampleRate s) (blockSize s)])"
proof (intro conjI impI)
  assume a: "processor s \<noteq> Some p \<and> 0 < sampleRate s \<and> 0 < blockSize s"
  then show "processingPrecision (procs (setProcessor (Some p) s) p) =
        (if supportsDoublePrecisionProcessing (procs s p) \<and> isDoublePrecision s
         then doublePrecision else singlePrecision)"
    by (simp add: setProcessor_procs)
  from a show "trace (setProcessor (Some p) s) =
        trace s @
        tagged (processor s)
          (attachEvents p (procs s p) (deviceChannels s) (sampleRate s) (blockSize s)
             (isDoublePrecision s)) @
        (case (if isPrepared s then processor s else None) of
           None \<Rightarrow> []
         | Some old \<Rightarrow> [(ReleaseResources old, Some p)])"
    by (simp add: setProcessor_trace)
next
  assume b: "processor s = Some p \<and> enable \<noteq> isDoublePrecision s"
  then show "processingPrecision (procs (setDoublePrecisionProcessing enable s) p) =
        (if supportsDoublePrecisionProcessing (procs s p) \<and> enable
         then doublePrecision else singlePrecision)"
    by (simp add: setDoublePrecisionProcessing_def Let_def)
  from b show "trace (setDoublePrecisionProcessing enable s) =
        trace s @
        tagged (Some p)
          [ReleaseResources p,
           SetProcessingPrecision p
             (if supportsDoublePrecisionProcessing (procs s p) \<and> enable
              then doublePrecision else singlePrecision),
           PrepareToPlay p (sampleRate s) (blockSize s)]"
    by (simp add: setDoublePrecisionProcessing_def Let_def tagged_def)
qed

theorem precision_negotiation_witness:
  "processingPrecision
     (procs (setProcessor (Some 0)
        (idle_player\<lparr>sampleRate := 44100, blockSize := 2, isDoublePrecision := True\<rparr>)) 0)
     = doublePrecision \<and>
   trace (setProcessor (Some 0)
        (idle_player\<lparr>sampleRate := 44100, blockSize := 2, isDoublePrecision := True\<rparr>))
     = [(SetPlayConfigDetails 0 0 0 44100 2, None),
        (SetProcessingPrecision 0 doublePrecision, None),
        (PrepareToPlay 0 44100 2, None)] \<and>
   processingPrecision (procs (setDoublePrecisionProcessing True attached_player) 0)
     = doublePrecision \<and>
   trace (setDoublePrecisionProcessing True attached_player)
     = [(ReleaseResources 0, Some 0),
        (SetProcessingPrecision 0 doublePrecision, Some 0),
        (PrepareToPlay 0 44100 2, Some 0)]"
  using precision_negotiation
      [of "idle_player\<lparr>sampleRate := 44100, blockSize := 2, isDoublePrecision := True\<rparr>" 0 True]
    precision_negotiation [of attached_player 0 True]
  by (simp add: idle_player_def attached_player_def stereo_processor_def attachEvents_def
      tagged_def negotiated_def)

section \<open>C5: release after the swap\<close>

text \<open>
  C5. When \<open>setProcessor\<close> replaces a hosted, prepared processor \<open>old\<close> by another handle,
  the release of \<open>old\<close> is the last call: it is made when the player's \<open>processor\<close> member
  already is the new handle, and after the configure, precision and prepare calls of the
  new processor (made, when the device configuration is known, while the member still was
  \<open>old\<close>).
\<close>

theorem release_after_swap:
  assumes "processor s = Some old" and "isPrepared s" and "new \<noteq> Some old"
  shows "processor (setProcessor new s) = new \<and>
         trace (setProcessor new s) =
           trace s @
           tagged (Some old)
             (case new of
                None \<Rightarrow> []
              | Some p \<Rightarrow>
                  if 0 < sampleRate s \<and> 0 < blockSize s
                  then attachEvents p (procs s p) (deviceChannels s) (sampleRate s) (blockSize s)
                         (isDoublePrecision s)
                  else []) @
           [(ReleaseResources old, new)]"
proof -
  from assms have ne: "processor s \<noteq> new" by auto
  from setProcessor_trace [OF ne] setProcessor_fields(1) [OF ne] assms show ?thesis by simp
qed

theorem release_after_swap_witness:
  "processor attached_player = Some 0 \<and> isPrepared attached_player \<and>
   processor (setProcessor (Some 1) attached_player) = Some 1 \<and>
   trace (setProcessor (Some 1) attached_player) =
     [(SetPlayConfigDetails 1 2 2 44100 2, Some 0),
      (SetProcessingPrecision 1 singlePrecision, Some 0),
      (PrepareToPlay 1 44100 2, Some 0),
      (ReleaseResources 0, Some 1)]"
proof -
  have h: "processor attached_player = Some 0" "isPrepared attached_player" "Some (1::nat) \<noteq> Some 0"
    by (simp_all add: attached_player_def idle_player_def)
  from release_after_swap [OF h] h show ?thesis
    by (simp add: idle_player_def attached_player_def stereo_processor_def attachEvents_def
      tagged_def negotiated_def)
qed

section \<open>C6: nothing to do\<close>

text \<open>
  C6. \<open>setProcessor\<close> with the handle that is hosted already, and
  \<open>setDoublePrecisionProcessing\<close> with the mode that is set already, return the state they
  were given: no member changes (the sample count is not reset) and no call is made.
\<close>

theorem reattach_is_noop:
  "setProcessor (processor s) s = s \<and>
   setDoublePrecisionProcessing (isDoublePrecision s) s = s"
  by (simp add: setProcessor_def setDoublePrecisionProcessing_def)

theorem reattach_is_noop_witness:
  "setProcessor (Some 0) attached_player = attached_player \<and>
   setDoublePrecisionProcessing False attached_player = attached_player"
  using reattach_is_noop [of attached_player]
  by (simp add: attached_player_def idle_player_def)

section \<open>C7: device stopped\<close>

text \<open>
  C7. \<open>audioDeviceStopped\<close> calls \<open>releaseResources\<close> exactly once on a hosted processor
  when the prepared flag is set and makes no call otherwise; it sets the sample rate and
  the block size to 0 and clears the prepared flag; the hosted handle stays as it was.
\<close>

theorem audioDeviceStopped_keeps_processor:
  "trace (audioDeviceStopped s) =
     trace s @
     (case processor s of
        None \<Rightarrow> []
      | Some p \<Rightarrow> if isPrepared s then [(ReleaseResources p, Some p)] else []) \<and>
   sampleRate (audioDeviceStopped s) = 0 \<and>
   blockSize (audioDeviceStopped s) = 0 \<and>
   \<not> isPrepared (audioDeviceStopped s) \<and>
   processor (audioDeviceStopped s) = processor s"
  by (simp add: audioDeviceStopped_def Let_def split: option.splits)

theorem audioDeviceStopped_keeps_processor_witness:
  "trace (audioDeviceStopped attached_player) = [(ReleaseResources 0, Some 0)] \<and>
   sampleRate (audioDeviceStopped attached_player) = 0 \<and>
   blockSize (audioDeviceStopped attached_player) = 0 \<and>
   \<not> isPrepared (audioDeviceStopped attached_player) \<and>
   processor (audioDeviceStopped attached_player) = Some 0"
  using audioDeviceStopped_keeps_processor [of attached_player]
  by (simp add: attached_player_def idle_player_def)

section \<open>C3: silence\<close>

text \<open>
  C3, as the code has it. In every callback whose buffer routing is defined, that is,
  \<open>initialiseIoBuffers\<close> run on the channel counts kept from the last negotiation stays
  inside the pointer arrays and buffers it is given: with no processor hosted, the callback
  clears every system output and does nothing else (no call is made; the sample count, the
  workgroup and the processors stay as they were). With a hosted processor that reports
  suspended, and a current device, it clears every system output and neither calls
  \<open>processBlock\<close> nor sends MIDI; but it does notify the processor of a changed workgroup,
  install its play head when the processor has none and remove it again (these calls in
  this order), and add the block's length to the sample count.
\<close>

theorem callback_silence:
  fixes s :: "('f::zero, 'd) AudioProcessorPlayer"
  assumes "initialiseIoBuffers inD outD n (size_t (ins (actualProcessorChannels s)))
             (size_t (outs (actualProcessorChannels s))) (tempBuffer s) (channels s) (memory s)
           \<noteq> None"
    and "case processor s of
           None \<Rightarrow> True
         | Some p \<Rightarrow> isSuspended (procs s p) \<and> currentDevice s = Some device"
  shows "\<exists>s'. audioDeviceIOCallbackWithContext cv inD outD n hostTimeNs s = Some s' \<and>
           (\<forall>q \<in> set outD. \<forall>k < n. memory s' (q + k) = 0) \<and>
           (case processor s of
              None \<Rightarrow>
                emitted s s' = [] \<and> sampleCount s' = sampleCount s \<and> procs s' = procs s \<and>
                currentWorkgroup s' = currentWorkgroup s
            | Some p \<Rightarrow>
                emitted s s' =
                  tagged (Some p)
                    (workgroupEvents p device s @ installEvents p hostTimeNs s @
                     uninstallEvents p s) \<and>
                sampleCount s' = sampleCount s + of_nat n \<and>
                getPlayHead (procs s' p) = getPlayHead (procs s p) \<and>
                currentWorkgroup s' = getWorkgroup device)"
proof (cases "processor s")
  case None
  from callback_without_processor [OF assms(1) None, of cv hostTimeNs] None show ?thesis
    by (auto simp: emitted_def)
next
  case (Some p)
  with assms(2) have "isSuspended (procs s p)" "currentDevice s = Some device" by simp_all
  from callback_suspended [OF assms(1) Some this(2,1), of cv hostTimeNs] Some show ?thesis
    by (auto simp: emitted_def)
qed

theorem callback_silence_witness:
  "initialiseIoBuffers [0] [4, 6] 2 (size_t (ins (actualProcessorChannels detached_player)))
     (size_t (outs (actualProcessorChannels detached_player)))
     (tempBuffer detached_player) (channels detached_player) (memory detached_player) \<noteq> None \<and>
   processor detached_player = None \<and>
   (\<exists>s'. audioDeviceIOCallbackWithContext identity_conversion [0] [4, 6] 2 None detached_player
            = Some s' \<and>
          map (memory s') [4, 5, 6, 7] = [0, 0, 0, 0] \<and>
          emitted detached_player s' = [] \<and>
          sampleCount s' = sampleCount detached_player \<and>
          currentWorkgroup s' = currentWorkgroup detached_player) \<and>
   initialiseIoBuffers [0] [4, 6] 2 (size_t (ins (actualProcessorChannels suspended_player)))
     (size_t (outs (actualProcessorChannels suspended_player)))
     (tempBuffer suspended_player) (channels suspended_player) (memory suspended_player) \<noteq> None \<and>
   processor suspended_player = Some 0 \<and>
   isSuspended (procs suspended_player 0) \<and>
   currentDevice suspended_player = Some stereo_device \<and>
   (\<exists>s'. audioDeviceIOCallbackWithContext identity_conversion [0] [4, 6] 2 None suspended_player
            = Some s' \<and>
          map (memory s') [4, 5, 6, 7] = [0, 0, 0, 0] \<and>
          emitted suspended_player s' =
            [(AudioWorkgroupContextChanged 0 (Some 1), Some 0),
             (SetPlayHead 0 (Some (EnginePlayHead None 0 44100)), Some 0),
             (SetPlayHead 0 None, Some 0)] \<and>
          sampleCount s' = 2 \<and>
          currentWorkgroup s' = Some 1)"
proof -
  have d: "processor detached_player = None"
    by (simp add: detached_player_def)
  have rd: "initialiseIoBuffers [0] [4, 6] 2 (size_t (ins (actualProcessorChannels detached_player)))
     (size_t (outs (actualProcessorChannels detached_player)))
     (tempBuffer detached_player) (channels detached_player) (memory detached_player) \<noteq> None"
    by (rule routable_not_None)
       (simp add: detached_player_def attached_player_def idle_player_def size_t_def
        routable_def destinations_def separate_def disjoint_ranges_def)
  have cd: "case processor detached_player of
             None \<Rightarrow> True
           | Some p \<Rightarrow> isSuspended (procs detached_player p) \<and>
               currentDevice detached_player = Some stereo_device"
    using d by simp
  from callback_silence [OF rd cd, of identity_conversion None]
  obtain t' where run_d:
    "audioDeviceIOCallbackWithContext identity_conversion [0] [4, 6] 2 None detached_player = Some t'"
    and zero_d: "\<And>q k. q \<in> set [4, 6] \<Longrightarrow> k < 2 \<Longrightarrow> memory t' (q + k) = 0"
    and rest_d: "emitted detached_player t' = []" "sampleCount t' = sampleCount detached_player"
      "currentWorkgroup t' = currentWorkgroup detached_player"
    using d by auto
  have cells_d: "memory t' 4 = 0" "memory t' 5 = 0" "memory t' 6 = 0" "memory t' 7 = 0"
    using zero_d [of 4 0] zero_d [of 4 1] zero_d [of 6 0] zero_d [of 6 1] by simp_all
  have first: "\<exists>s'. audioDeviceIOCallbackWithContext identity_conversion [0] [4, 6] 2 None
                      detached_player = Some s' \<and>
          map (memory s') [4, 5, 6, 7] = [0, 0, 0, 0] \<and>
          emitted detached_player s' = [] \<and>
          sampleCount s' = sampleCount detached_player \<and>
          currentWorkgroup s' = currentWorkgroup detached_player"
    using run_d cells_d rest_d by simp
  have f: "processor suspended_player = Some 0" "isSuspended (procs suspended_player 0)"
    "currentDevice suspended_player = Some stereo_device"
    "currentWorkgroup suspended_player = None" "getPlayHead (procs suspended_player 0) = None"
    "sampleCount suspended_player = 0" "sampleRate suspended_player = 44100"
    by (simp_all add: suspended_player_def attached_player_def idle_player_def
        stereo_processor_def)
  have r: "initialiseIoBuffers [0] [4, 6] 2 (size_t (ins (actualProcessorChannels suspended_player)))
     (size_t (outs (actualProcessorChannels suspended_player)))
     (tempBuffer suspended_player) (channels suspended_player) (memory suspended_player) \<noteq> None"
    by (rule routable_not_None)
       (simp add: suspended_player_def attached_player_def idle_player_def size_t_def
        routable_def destinations_def separate_def disjoint_ranges_def)
  have c: "case processor suspended_player of
             None \<Rightarrow> True
           | Some p \<Rightarrow> isSuspended (procs suspended_player p) \<and>
               currentDevice suspended_player = Some stereo_device"
    using f by simp
  from callback_silence [OF r c, of identity_conversion None]
  obtain s' where run:
    "audioDeviceIOCallbackWithContext identity_conversion [0] [4, 6] 2 None suspended_player = Some s'"
    and zero: "\<And>q k. q \<in> set [4, 6] \<Longrightarrow> k < 2 \<Longrightarrow> memory s' (q + k) = 0"
    and ev: "emitted suspended_player s' =
       tagged (Some 0)
         (workgroupEvents 0 stereo_device suspended_player @
          installEvents 0 None suspended_player @ uninstallEvents 0 suspended_player)"
    and cnt: "sampleCount s' = sampleCount suspended_player + of_nat 2"
    and wg: "currentWorkgroup s' = getWorkgroup stereo_device"
    using f by auto
  have cells: "memory s' 4 = 0" "memory s' 5 = 0" "memory s' 6 = 0" "memory s' 7 = 0"
    using zero [of 4 0] zero [of 4 1] zero [of 6 0] zero [of 6 1] by simp_all
  have second: "\<exists>s'. audioDeviceIOCallbackWithContext identity_conversion [0] [4, 6] 2 None
                       suspended_player = Some s' \<and>
          map (memory s') [4, 5, 6, 7] = [0, 0, 0, 0] \<and>
          emitted suspended_player s' =
            [(AudioWorkgroupContextChanged 0 (Some 1), Some 0),
             (SetPlayHead 0 (Some (EnginePlayHead None 0 44100)), Some 0),
             (SetPlayHead 0 None, Some 0)] \<and>
          sampleCount s' = 2 \<and>
          currentWorkgroup s' = Some 1"
    using run ev cnt wg cells f
    by (simp add: tagged_def workgroupEvents_def installEvents_def uninstallEvents_def
        stereo_device_def)
  from rd d first r f(1,2,3) second show ?thesis by blast
qed

text \<open>With a suspended processor the sample count moves, the processor is notified of the
  workgroup and the play head is installed and removed, which the claim as stated excludes.\<close>

theorem callback_suspended_counterexample:
  "processor suspended_player = Some 0 \<and>
   isSuspended (procs suspended_player 0) \<and>
   sampleCount suspended_player = 0 \<and>
   map_option sampleCount
     (audioDeviceIOCallbackWithContext identity_conversion [0] [4, 6] 2 None suspended_player)
     = Some 2 \<and>
   map_option (emitted suspended_player)
     (audioDeviceIOCallbackWithContext identity_conversion [0] [4, 6] 2 None suspended_player)
     = Some [(AudioWorkgroupContextChanged 0 (Some 1), Some 0),
             (SetPlayHead 0 (Some (EnginePlayHead None 0 44100)), Some 0),
             (SetPlayHead 0 None, Some 0)]"
proof -
  have f: "processor suspended_player = Some 0" "isSuspended (procs suspended_player 0)"
    "currentDevice suspended_player = Some stereo_device"
    "currentWorkgroup suspended_player = None" "getPlayHead (procs suspended_player 0) = None"
    "sampleCount suspended_player = 0" "sampleRate suspended_player = 44100"
    by (simp_all add: suspended_player_def attached_player_def idle_player_def
        stereo_processor_def)
  have r: "initialiseIoBuffers [0] [4, 6] 2 (size_t (ins (actualProcessorChannels suspended_player)))
     (size_t (outs (actualProcessorChannels suspended_player)))
     (tempBuffer suspended_player) (channels suspended_player) (memory suspended_player) \<noteq> None"
    by (rule routable_not_None)
       (simp add: suspended_player_def attached_player_def idle_player_def size_t_def
        routable_def destinations_def separate_def disjoint_ranges_def)
  from callback_suspended [OF r f(1) f(3) f(2), of identity_conversion None] f
  show ?thesis
    by (auto simp: emitted_def tagged_def workgroupEvents_def installEvents_def
        uninstallEvents_def stereo_device_def)
qed

text \<open>
  Where the routing is not defined, nothing is stated. The player itself reaches such a
  state: a detach keeps \<open>actualProcessorChannels\<close>, a restart of the device renegotiates
  only for a hosted processor, and the next callback routes two outputs through a device
  array that has one.
\<close>

lemma routing_past_the_outputs:
  "initialiseIoBuffers [0] [4] 2 2 2 tb chs (m :: int memory) = None"
  by (cases chs)
     (simp_all add: initialiseIoBuffers_def forLoop.simps inputSlot_def setChannel_def
       prepareInputChannel_def nth_opt_def memcpy_def disjoint_ranges_def Let_def)

lemma audioDeviceAboutToStart_without_processor:
  "processor s = None \<Longrightarrow>
   processor (audioDeviceAboutToStart device s) = None \<and>
   actualProcessorChannels (audioDeviceAboutToStart device s) = actualProcessorChannels s \<and>
   deviceChannels (audioDeviceAboutToStart device s) =
     \<lparr>ins = countNumberOfSetBits (getActiveInputChannels device),
      outs = countNumberOfSetBits (getActiveOutputChannels device)\<rparr> \<and>
   sampleRate (audioDeviceAboutToStart device s) = getCurrentSampleRate device \<and>
   blockSize (audioDeviceAboutToStart device s) = getCurrentBufferSizeSamples device \<and>
   procs (audioDeviceAboutToStart device s) = procs s"
  by (simp add: audioDeviceAboutToStart_def Let_def)

lemma setProcessor_None_layout:
  "actualProcessorChannels (setProcessor None s) = actualProcessorChannels s"
  by (simp add: setProcessor_def Let_def split: option.splits)

lemma callback_stale_layout_example:
  "processor restarted_player = None \<and>
   actualProcessorChannels restarted_player = \<lparr>ins = 2, outs = 2\<rparr> \<and>
   deviceChannels restarted_player = \<lparr>ins = 1, outs = 1\<rparr> \<and>
   audioDeviceIOCallbackWithContext identity_conversion [0] [4] 2 None restarted_player = None"
proof -
  define s1 where "s1 = audioDeviceAboutToStart stereo_device idle_player"
  define s2 where "s2 = setProcessor (Some 0) s1"
  define s3 where "s3 = setProcessor None s2"
  have i: "processor idle_player = None" by (simp add: idle_player_def)
  from audioDeviceAboutToStart_without_processor [OF i, of stereo_device]
  have f1: "processor s1 = None" "deviceChannels s1 = \<lparr>ins = 1, outs = 2\<rparr>"
    "sampleRate s1 = 44100" "blockSize s1 = 2" "procs s1 = (\<lambda>h. stereo_processor)"
    by (simp_all add: s1_def stereo_device_def countNumberOfSetBits_def idle_player_def)
  then have ne1: "processor s1 \<noteq> Some 0" and pos: "0 < sampleRate s1" "0 < blockSize s1"
    by simp_all
  have f2: "processor s2 = Some 0" "actualProcessorChannels s2 = \<lparr>ins = 2, outs = 2\<rparr>"
    using setProcessor_fields(1) [OF ne1] setProcessor_layout [OF ne1 pos] f1
    by (simp_all add: s2_def findMostSuitableLayout_def stereo_processor_def)
  then have ne2: "processor s2 \<noteq> None" by simp
  have f3: "processor s3 = None" "actualProcessorChannels s3 = \<lparr>ins = 2, outs = 2\<rparr>"
    using setProcessor_fields(1) [OF ne2] f2 by (simp_all add: s3_def setProcessor_None_layout)
  have r: "restarted_player = audioDeviceAboutToStart mono_device s3"
    by (simp add: restarted_player_def s3_def s2_def s1_def)
  from audioDeviceAboutToStart_without_processor [OF f3(1), of mono_device] f3
  have f4: "processor restarted_player = None"
    "actualProcessorChannels restarted_player = \<lparr>ins = 2, outs = 2\<rparr>"
    "deviceChannels restarted_player = \<lparr>ins = 1, outs = 1\<rparr>"
    by (simp_all add: r mono_device_def countNumberOfSetBits_def)
  have "audioDeviceIOCallbackWithContext identity_conversion [0] [4] 2 None restarted_player = None"
    using f4 by (simp add: audioDeviceIOCallbackWithContext_def Let_def size_t_def
        routing_past_the_outputs)
  with f4 show ?thesis by simp
qed

section \<open>C8: the play head\<close>

text \<open>
  C8. In a callback with a hosted processor that already has a play head, the player makes
  no \<open>setPlayHead\<close> call at all, and the processor's play head after the callback is the
  one it had before. Only when the processor has none does the player install its own
  play head, built from the host time, the sample count and the sample rate, and remove it
  again before the callback ends.
\<close>

theorem playhead_not_overridden:
  fixes s :: "('f::zero, 'd) AudioProcessorPlayer"
  assumes "routable inD outD n (size_t (ins (actualProcessorChannels s)))
             (size_t (outs (actualProcessorChannels s))) (tempBuffer s) (channels s)"
    and "processor s = Some p" and "currentDevice s = Some device"
  shows "\<exists>s'. audioDeviceIOCallbackWithContext cv inD outD n hostTimeNs s = Some s' \<and>
           (case getPlayHead (procs s p) of
              Some source \<Rightarrow>
                getPlayHead (procs s' p) = Some source \<and>
                filter isSetPlayHead (map fst (emitted s s')) = []
            | None \<Rightarrow>
                getPlayHead (procs s' p) = None \<and>
                filter isSetPlayHead (map fst (emitted s s')) =
                  [SetPlayHead p (Some (EnginePlayHead hostTimeNs (sampleCount s) (sampleRate s))),
                   SetPlayHead p None])"
proof (cases "isSuspended (procs s p)")
  case True
  from callback_suspended [OF routable_not_None [OF assms(1)] assms(2,3) True, of cv hostTimeNs]
  show ?thesis
    by (auto simp: emitted_def tagged_def workgroupEvents_def installEvents_def
        uninstallEvents_def split: option.splits)
next
  case False
  from callback_processing [OF assms False, of cv hostTimeNs]
  obtain s' sends where run: "audioDeviceIOCallbackWithContext cv inD outD n hostTimeNs s = Some s'"
    and tr: "trace s' = trace s @ tagged (Some p)
             (workgroupEvents p device s @ installEvents p hostTimeNs s @
              [ProcessBlock p (processingPrecision (procs s p))] @ sends @ uninstallEvents p s)"
    and sends: "\<forall>e \<in> set sends. isSend e"
    and ph: "getPlayHead (procs s' p) = getPlayHead (procs s p)"
    by blast
  have "filter isSetPlayHead sends = []"
  proof (rule filter_False, rule ballI)
    fix e assume "e \<in> set sends"
    with sends have "isSend e" by simp
    then show "\<not> isSetPlayHead e" by (cases e) simp_all
  qed
  with tr have "filter isSetPlayHead (map fst (emitted s s')) =
      installEvents p hostTimeNs s @ uninstallEvents p s"
    by (simp add: emitted_def tagged_def workgroupEvents_def installEvents_def
        uninstallEvents_def comp_def)
  with run ph show ?thesis
    by (auto simp: installEvents_def uninstallEvents_def split: option.splits)
qed

theorem playhead_not_overridden_witness:
  "routable [0] [4, 6] 2 (size_t (ins (actualProcessorChannels timed_player)))
     (size_t (outs (actualProcessorChannels timed_player)))
     (tempBuffer timed_player) (channels timed_player) \<and>
   processor timed_player = Some 0 \<and>
   currentDevice timed_player = Some stereo_device \<and>
   getPlayHead (procs timed_player 0) = Some (OtherPlayHead 7) \<and>
   (\<exists>s'. audioDeviceIOCallbackWithContext identity_conversion [0] [4, 6] 2 None timed_player
            = Some s' \<and>
          getPlayHead (procs s' 0) = Some (OtherPlayHead 7) \<and>
          filter isSetPlayHead (map fst (emitted timed_player s')) = [])"
proof -
  have f: "processor timed_player = Some 0"
    "currentDevice timed_player = Some stereo_device"
    "getPlayHead (procs timed_player 0) = Some (OtherPlayHead 7)"
    by (simp_all add: timed_player_def attached_player_def idle_player_def)
  have r: "routable [0] [4, 6] 2 (size_t (ins (actualProcessorChannels timed_player)))
     (size_t (outs (actualProcessorChannels timed_player)))
     (tempBuffer timed_player) (channels timed_player)"
    by (simp add: timed_player_def attached_player_def idle_player_def size_t_def
        routable_def destinations_def separate_def disjoint_ranges_def)
  from playhead_not_overridden [OF r f(1,2), of identity_conversion None] f r
  show ?thesis by simp
qed

section \<open>C9: the prepared flag\<close>

text \<open>
  C9, as the code has it. After every \<open>setProcessor\<close> call whose handle differs from the hosted one the
  prepared flag is set, also when the call detaches and when no device configuration is
  known. In the latter case attaching \<open>p\<close> makes no \<open>prepareToPlay\<close> call, and yet a
  following \<open>audioDeviceStopped\<close>, or a following swap to another handle, calls
  \<open>releaseResources\<close> on \<open>p\<close>.
\<close>

theorem setProcessor_marks_prepared:
  "(processor s \<noteq> new \<longrightarrow> isPrepared (setProcessor new s)) \<and>
   (processor s \<noteq> Some p \<and> \<not> (0 < sampleRate s \<and> 0 < blockSize s) \<longrightarrow>
      emitted s (setProcessor (Some p) s) =
        (case (if isPrepared s then processor s else None) of
           None \<Rightarrow> []
         | Some old \<Rightarrow> [(ReleaseResources old, Some p)]) \<and>
      prepareCount p (emitted s (setProcessor (Some p) s)) = 0 \<and>
      emitted (setProcessor (Some p) s) (audioDeviceStopped (setProcessor (Some p) s)) =
        [(ReleaseResources p, Some p)] \<and>
      (q \<noteq> Some p \<longrightarrow>
         emitted (setProcessor (Some p) s) (setProcessor q (setProcessor (Some p) s)) =
           [(ReleaseResources p, q)]))"
proof (intro conjI impI)
  assume "processor s \<noteq> new"
  then show "isPrepared (setProcessor new s)" by (rule setProcessor_fields)
next
  assume a: "processor s \<noteq> Some p \<and> \<not> (0 < sampleRate s \<and> 0 < blockSize s)"
  let ?s1 = "setProcessor (Some p) s"
  from a have ne: "processor s \<noteq> Some p" by simp
  have t1: "trace ?s1 = trace s @
      (case (if isPrepared s then processor s else None) of
         None \<Rightarrow> []
       | Some old \<Rightarrow> [(ReleaseResources old, Some p)])"
    using setProcessor_trace [OF ne] a by (auto simp: tagged_def)
  then show e1: "emitted s ?s1 =
      (case (if isPrepared s then processor s else None) of
         None \<Rightarrow> []
       | Some old \<Rightarrow> [(ReleaseResources old, Some p)])"
    by (simp add: emitted_def)
  show "prepareCount p (emitted s ?s1) = 0"
    unfolding e1 by (simp add: prepareCount_def split: option.splits)
  have p1: "processor ?s1 = Some p" "isPrepared ?s1"
    using setProcessor_fields(1,2) [OF ne] by simp_all
  then show "emitted ?s1 (audioDeviceStopped ?s1) = [(ReleaseResources p, Some p)]"
    by (simp add: emitted_def audioDeviceStopped_def Let_def)
  show "emitted ?s1 (setProcessor q ?s1) = [(ReleaseResources p, q)]" if "q \<noteq> Some p"
  proof -
    from that p1 have ne': "processor ?s1 \<noteq> q" by auto
    from setProcessor_trace [OF ne'] a p1 show ?thesis
      by (auto simp: emitted_def tagged_def setProcessor_fields split: option.splits)
  qed
qed

theorem setProcessor_marks_prepared_witness:
  "isPrepared (setProcessor (Some 0) idle_player) \<and>
   emitted idle_player (setProcessor (Some 0) idle_player) = [] \<and>
   prepareCount 0 (emitted idle_player (setProcessor (Some 0) idle_player)) = 0 \<and>
   emitted (setProcessor (Some 0) idle_player)
     (audioDeviceStopped (setProcessor (Some 0) idle_player)) = [(ReleaseResources 0, Some 0)] \<and>
   emitted (setProcessor (Some 0) idle_player)
     (setProcessor None (setProcessor (Some 0) idle_player)) = [(ReleaseResources 0, None)]"
proof -
  have h: "processor idle_player = None" "\<not> isPrepared idle_player"
    "\<not> (0 < sampleRate idle_player \<and> 0 < blockSize idle_player)"
    by (simp_all add: idle_player_def)
  from setProcessor_marks_prepared [of idle_player "Some 0" 0 None] h show ?thesis
    by (simp add: prepareCount_def)
qed

text \<open>The flag is not set by a call with the hosted handle: stopping the device clears
  it, and attaching the same processor again returns at once.\<close>

theorem setProcessor_same_handle_counterexample:
  "processor (audioDeviceStopped attached_player) = Some 0 \<and>
   \<not> isPrepared (setProcessor (Some 0) (audioDeviceStopped attached_player))"
  by (simp add: setProcessor_def audioDeviceStopped_def Let_def attached_player_def idle_player_def)

section \<open>C10: device restart\<close>

text \<open>
  C10, as the code has it. \<open>audioDeviceAboutToStart\<close> with a hosted, prepared processor calls its
  \<open>releaseResources\<close> exactly twice, first directly and then from the internal detach,
  when the \<open>processor\<close> member is null already. After that, if the device's sample rate
  and block size are both positive, the re-attach configures the processor, sets its
  precision and calls \<open>prepareToPlay\<close> exactly once; if they are not, no \<open>prepareToPlay\<close>
  call is made.
\<close>

theorem audioDeviceAboutToStart_releases_twice:
  assumes "processor s = Some p" and "isPrepared s"
  shows "emitted s (audioDeviceAboutToStart device s) =
           [(ReleaseResources p, Some p), (ReleaseResources p, None)] @
           tagged None
             (if 0 < getCurrentSampleRate device \<and> 0 < getCurrentBufferSizeSamples device
              then attachEvents p (procs s p)
                     \<lparr>ins = countNumberOfSetBits (getActiveInputChannels device),
                      outs = countNumberOfSetBits (getActiveOutputChannels device)\<rparr>
                     (getCurrentSampleRate device) (getCurrentBufferSizeSamples device)
                     (isDoublePrecision s)
              else []) \<and>
         releaseCount p (emitted s (audioDeviceAboutToStart device s)) = 2 \<and>
         prepareCount p (emitted s (audioDeviceAboutToStart device s)) =
           (if 0 < getCurrentSampleRate device \<and> 0 < getCurrentBufferSizeSamples device
            then 1 else 0) \<and>
         processor (audioDeviceAboutToStart device s) = Some p"
proof -
  let ?attach = "tagged None
             (if 0 < getCurrentSampleRate device \<and> 0 < getCurrentBufferSizeSamples device
              then attachEvents p (procs s p)
                     \<lparr>ins = countNumberOfSetBits (getActiveInputChannels device),
                      outs = countNumberOfSetBits (getActiveOutputChannels device)\<rparr>
                     (getCurrentSampleRate device) (getCurrentBufferSizeSamples device)
                     (isDoublePrecision s)
              else [])"
  have e: "emitted s (audioDeviceAboutToStart device s) =
      [(ReleaseResources p, Some p), (ReleaseResources p, None)] @ ?attach"
    using audioDeviceAboutToStart_trace(1) [OF assms, of device] by (simp add: emitted_def)
  have r: "releaseCount p ([(ReleaseResources p, Some p), (ReleaseResources p, None)] @ ?attach) = 2"
    by (simp add: releaseCount_def tagged_def attachEvents_def)
  have c: "prepareCount p ([(ReleaseResources p, Some p), (ReleaseResources p, None)] @ ?attach) =
      (if 0 < getCurrentSampleRate device \<and> 0 < getCurrentBufferSizeSamples device then 1 else 0)"
    by (simp add: prepareCount_def tagged_def attachEvents_def)
  from e r c audioDeviceAboutToStart_trace(2) [OF assms] show ?thesis by simp
qed

theorem audioDeviceAboutToStart_releases_twice_witness:
  "processor attached_player = Some 0 \<and> isPrepared attached_player \<and>
   emitted attached_player (audioDeviceAboutToStart stereo_device attached_player) =
     [(ReleaseResources 0, Some 0), (ReleaseResources 0, None),
      (SetPlayConfigDetails 0 2 2 44100 2, None),
      (SetProcessingPrecision 0 singlePrecision, None),
      (PrepareToPlay 0 44100 2, None)] \<and>
   releaseCount 0 (emitted attached_player (audioDeviceAboutToStart stereo_device attached_player)) = 2 \<and>
   prepareCount 0 (emitted attached_player (audioDeviceAboutToStart stereo_device attached_player)) = 1"
proof -
  have h: "processor attached_player = Some 0" "isPrepared attached_player"
    by (simp_all add: attached_player_def idle_player_def)
  have d: "0 < getCurrentSampleRate stereo_device \<and> 0 < getCurrentBufferSizeSamples stereo_device"
    by (simp add: stereo_device_def)
  have a: "attachEvents 0 (procs attached_player 0)
             \<lparr>ins = countNumberOfSetBits (getActiveInputChannels stereo_device),
              outs = countNumberOfSetBits (getActiveOutputChannels stereo_device)\<rparr>
             (getCurrentSampleRate stereo_device) (getCurrentBufferSizeSamples stereo_device)
             (isDoublePrecision attached_player) =
           [SetPlayConfigDetails 0 2 2 44100 2, SetProcessingPrecision 0 singlePrecision,
            PrepareToPlay 0 44100 2]"
    by (simp add: attachEvents_def attached_player_def idle_player_def stereo_processor_def
        stereo_device_def negotiated_def countNumberOfSetBits_def)
  from audioDeviceAboutToStart_releases_twice [OF h, of stereo_device] h d a show ?thesis
    by (simp add: tagged_def releaseCount_def prepareCount_def)
qed

text \<open>A device that reports a block size of 0: two releases and no prepare.\<close>

theorem audioDeviceAboutToStart_unopened_counterexample:
  "processor attached_player = Some 0 \<and> isPrepared attached_player \<and>
   emitted attached_player (audioDeviceAboutToStart unopened_device attached_player) =
     [(ReleaseResources 0, Some 0), (ReleaseResources 0, None)] \<and>
   prepareCount 0 (emitted attached_player (audioDeviceAboutToStart unopened_device attached_player)) = 0"
proof -
  have h: "processor attached_player = Some 0" "isPrepared attached_player"
    by (simp_all add: attached_player_def idle_player_def)
  have d: "\<not> (0 < getCurrentSampleRate unopened_device \<and> 0 < getCurrentBufferSizeSamples unopened_device)"
    by (simp add: unopened_device_def)
  from audioDeviceAboutToStart_trace(1) [OF h, of unopened_device] h d show ?thesis
    by (simp add: tagged_def emitted_def prepareCount_def)
qed

end
